theory Spec2Isabelle
  imports Complex_Main "HOL-Library.AList" "HOL-Library.Sublist"
begin

section \<open>Values, exceptions and the collaborators of the module\<close>

text \<open>
  The module \<^verbatim>\<open>surface_pdb_sasa.py\<close> is glue code around the file system, the
  \<^verbatim>\<open>csv\<close> module, \<^verbatim>\<open>tabulate\<close>, the \<^verbatim>\<open>rich\<close> console and Biopython. The embedding keeps
  the module's own control flow and data flow and takes the collaborators as an
  environment: each call that can raise returns the exception as a value.

  An exception is one of the three the module's own expressions raise (a missing
  dictionary key, \<^verbatim>\<open>float\<close> on a string that is no number, \<^verbatim>\<open>float\<close> on \<^verbatim>\<open>None\<close>), or
  one raised by a collaborator, which carries its text. All of them derive from
  \<^verbatim>\<open>Exception\<close>, the class the handler of \<^verbatim>\<open>get_surface_resi\<close> catches.
\<close>

datatype exn =
    KeyError string
  | ValueError string
  | TypeError
  | External string

text \<open>
  The Python values that occur: strings, \<^verbatim>\<open>None\<close> (what \<^verbatim>\<open>csv.DictReader\<close> fills in
  for a field a short record lacks) and floats. The float type \<open>'f\<close> is a
  parameter of the embedding.
\<close>

datatype 'f pyval = Str string | PyNone | Float 'f

subsection \<open>Strings and paths\<close>

definition startswith :: "string \<Rightarrow> string \<Rightarrow> bool" where
  "startswith s pre = prefix pre s"

definition endswith :: "string \<Rightarrow> string \<Rightarrow> bool" where
  "endswith s suf = suffix suf s"

text \<open>\<^verbatim>\<open>str.rfind\<close> for a single character: the highest index, or \<open>-1\<close>.\<close>

definition rfind :: "string \<Rightarrow> char \<Rightarrow> int" where
  "rfind p c =
     (if c \<in> set p
      then int (length p) - 1 - int (length (takeWhile (\<lambda>x. x \<noteq> c) (rev p)))
      else - 1)"

text \<open>\<^verbatim>\<open>posixpath.join\<close> with two arguments.\<close>

definition join :: "string \<Rightarrow> string \<Rightarrow> string" where
  "join a b =
     (if startswith b ''/'' then b
      else if a = [] \<or> endswith a ''/'' then a @ b
      else a @ ''/'' @ b)"

text \<open>
  \<^verbatim>\<open>os.path.splitext\<close> on POSIX (\<^verbatim>\<open>genericpath._splitext\<close> with separator \<^verbatim>\<open>/\<close>, no
  alternative separator, extension separator \<^verbatim>\<open>.\<close>). The loop skips the leading dots
  of the last path component: a name made of dots and a suffix has no extension.
\<close>

function splitext_scan :: "string \<Rightarrow> int \<Rightarrow> int \<Rightarrow> string \<times> string" where
  "splitext_scan p filenameIndex dotIndex =
     (if filenameIndex < dotIndex then
        (if take 1 (drop (nat filenameIndex) p) \<noteq> ''.''
         then (take (nat dotIndex) p, drop (nat dotIndex) p)
         else splitext_scan p (filenameIndex + 1) dotIndex)
      else (p, []))"
  by pat_completeness auto
termination
  by (relation "measure (\<lambda>(p, i, d). nat (d - i))") auto

definition splitext :: "string \<Rightarrow> string \<times> string" where
  "splitext p =
     (let sepIndex = rfind p CHR ''/'';
          dotIndex = rfind p CHR ''.''
      in if dotIndex > sepIndex then splitext_scan p (sepIndex + 1) dotIndex
         else (p, []))"

text \<open>\<^verbatim>\<open>os.path.basename\<close> on POSIX: what follows the last separator.\<close>

definition basename :: "string \<Rightarrow> string" where
  "basename p = drop (nat (rfind p CHR ''/'' + 1)) p"

subsection \<open>The environment\<close>

text \<open>
  What is printed on the console: the error line with the caught exception, the
  success line with the protein file, the SASA line with the protein file and the
  rounded value.
\<close>

datatype 'f message =
    ErrorMsg exn
  | SuccessMsg string
  | SasaMsg string 'f

text \<open>
  A file this module writes holds either the rows handed to \<^verbatim>\<open>csv.writer\<close>, in order,
  or the text \<^verbatim>\<open>tabulate\<close> returned, or nothing (a file opened for writing and closed
  before anything was written). The type \<open>'t\<close> of texts is a parameter: the layout
  and the number formats of the table are \<^verbatim>\<open>tabulate\<close>'s.
\<close>

datatype ('f, 't) content =
    CsvFile "'f pyval list list"
  | TabFile 't
  | EmptyFile

record ('f, 't) world =
  files :: "string \<rightharpoonup> ('f, 't) content"
  console :: "'f message list"

text \<open>
  The collaborators. \<open>makedirs p\<close> is \<^verbatim>\<open>os.makedirs(p, exist_ok=True)\<close>; \<open>open_csv p\<close>
  is \<^verbatim>\<open>open(p, "r")\<close> read through \<^verbatim>\<open>csv.reader\<close>, giving the records of the file;
  \<open>open_write p\<close> is \<^verbatim>\<open>open(p, "w")\<close>; \<open>to_float s\<close> is \<^verbatim>\<open>float(s)\<close> on a string, \<open>None\<close>
  when it raises \<^verbatim>\<open>ValueError\<close>; \<open>tabulate table\<close> is
  \<^verbatim>\<open>tabulate(table, headers="keys", tablefmt="plain", showindex=False)\<close>, the text or
  the exception; \<open>console_print\<close> says when \<^verbatim>\<open>CONSOLE.print\<close> raises; \<open>get_structure\<close> is
  \<^verbatim>\<open>PDBParser(QUIET=1).get_structure\<close>; \<open>sasa_of\<close> is \<^verbatim>\<open>ShrakeRupley().compute\<close> at
  level \<^verbatim>\<open>"S"\<close> followed by \<^verbatim>\<open>round(struct.sasa, 2)\<close>.
\<close>

record ('f, 's, 't) env =
  makedirs :: "string \<Rightarrow> exn option"
  open_csv :: "string \<Rightarrow> exn + string list list"
  open_write :: "string \<Rightarrow> exn option"
  to_float :: "string \<Rightarrow> 'f option"
  tabulate :: "(string \<times> 'f pyval) list list \<Rightarrow> exn + 't"
  console_print :: "'f message \<Rightarrow> exn option"
  get_structure :: "string \<Rightarrow> string \<Rightarrow> exn + 's"
  sasa_of :: "'s \<Rightarrow> exn + 'f"

section \<open>The structure loader and the SASA calculator\<close>

definition protein_id_of :: "string \<Rightarrow> string" where
  "protein_id_of protein_file =
     (if endswith protein_file ''.pdb'' then fst (splitext protein_file)
      else protein_file)"

definition biop_fetch :: "('f, 's, 't) env \<Rightarrow> string \<Rightarrow> exn + ('s \<times> string)" where
  "biop_fetch E protein_file =
     (let protein_id = protein_id_of protein_file
      in case get_structure E protein_id protein_file of
           Inl e \<Rightarrow> Inl e
         | Inr struct \<Rightarrow> Inr (struct, protein_id))"

text \<open>
  \<open>print E m w\<close>: \<^verbatim>\<open>CONSOLE.print\<close> of the message, which raises or appends to the
  console.
\<close>

definition print ::
  "('f, 's, 't) env \<Rightarrow> 'f message \<Rightarrow> ('f, 't) world \<Rightarrow> exn option \<times> ('f, 't) world" where
  "print E m w =
     (case console_print E m of
        Some e \<Rightarrow> (Some e, w)
      | None \<Rightarrow> (None, w\<lparr>console := console w @ [m]\<rparr>))"

definition calc_sasa ::
  "('f, 's, 't) env \<Rightarrow> string \<Rightarrow> ('f, 't) world \<Rightarrow> exn option \<times> ('f, 't) world" where
  "calc_sasa E protein_file w =
     (case biop_fetch E protein_file of
        Inl e \<Rightarrow> (Some e, w)
      | Inr (struct, _) \<Rightarrow>
          (case sasa_of E struct of
             Inl e \<Rightarrow> (Some e, w)
           | Inr sasa_value \<Rightarrow> print E (SasaMsg protein_file sasa_value) w))"

section \<open>The surface residue aggregator\<close>

subsection \<open>Reading: \<^verbatim>\<open>csv.DictReader\<close>, item access, \<^verbatim>\<open>float\<close>\<close>

text \<open>
  \<^verbatim>\<open>csv.DictReader\<close>: the first record gives the field names; a record that is the
  empty list (a blank line) is skipped; a row is \<^verbatim>\<open>dict(zip(fieldnames, record))\<close>, and
  when the record is shorter than the field names every remaining field name is set
  to \<^verbatim>\<open>None\<close>. (The fields of a longer record go under the key \<^verbatim>\<open>None\<close>, which no
  string key reads; they are left out.)
\<close>

definition dict_row :: "string list \<Rightarrow> string list \<Rightarrow> (string \<rightharpoonup> 'f pyval)" where
  "dict_row fieldnames record =
     (let d = fold (\<lambda>(k, v) d. d(k \<mapsto> Str v)) (zip fieldnames record) Map.empty
      in if length record < length fieldnames
         then fold (\<lambda>key d. d(key \<mapsto> PyNone)) (drop (length record) fieldnames) d
         else d)"

fun DictReader :: "string list list \<Rightarrow> (string \<rightharpoonup> 'f pyval) list" where
  "DictReader [] = []"
| "DictReader (fieldnames # records) =
     map (dict_row fieldnames) (filter (\<lambda>record. record \<noteq> []) records)"

text \<open>\<^verbatim>\<open>row[key]\<close> on a dictionary with string keys.\<close>

definition getitem :: "(string \<rightharpoonup> 'f pyval) \<Rightarrow> string \<Rightarrow> exn + 'f pyval" where
  "getitem row key = (case row key of None \<Rightarrow> Inl (KeyError key) | Some v \<Rightarrow> Inr v)"

text \<open>\<^verbatim>\<open>float(v)\<close>: a float is itself, a string is parsed, \<^verbatim>\<open>None\<close> is a type error.\<close>

definition py_float :: "(string \<Rightarrow> 'f option) \<Rightarrow> 'f pyval \<Rightarrow> exn + 'f" where
  "py_float parse v =
     (case v of
        Float x \<Rightarrow> Inr x
      | PyNone \<Rightarrow> Inl TypeError
      | Str s \<Rightarrow> (case parse s of None \<Rightarrow> Inl (ValueError s) | Some x \<Rightarrow> Inr x))"

subsection \<open>The two dictionaries\<close>

text \<open>
  A Python dictionary keeps its keys in insertion order, and assigning to a key
  that is present keeps the key's place. Both dictionaries of the aggregation are
  association lists updated with \<^const>\<open>AList.update\<close>, which does exactly that.
  \<open>resi_potentials\<close> is a \<^verbatim>\<open>defaultdict(float)\<close>: reading a missing key inserts and
  gives \<open>0\<close>, so \<^verbatim>\<open>d[k] += x\<close> stores \<open>0 + x\<close> for a new key.
\<close>

type_synonym 'f potentials = "('f pyval \<times> 'f) list"
type_synonym 'f names = "('f pyval \<times> 'f pyval) list"

definition default_get :: "'f::zero potentials \<Rightarrow> 'f pyval \<Rightarrow> 'f" where
  "default_get d k = (case map_of d k of None \<Rightarrow> 0 | Some v \<Rightarrow> v)"

definition add_potential :: "'f::{zero,plus} potentials \<Rightarrow> 'f pyval \<Rightarrow> 'f \<Rightarrow> 'f potentials" where
  "add_potential d k x = AList.update k (default_get d k + x) d"

text \<open>The loop over the rows of the reader (lines 73 to 77).\<close>

fun aggregate ::
  "(string \<Rightarrow> 'f option) \<Rightarrow> (string \<rightharpoonup> 'f pyval) list \<Rightarrow>
   'f::{zero,plus} potentials \<times> 'f names \<Rightarrow> exn + ('f potentials \<times> 'f names)" where
  "aggregate parse [] acc = Inr acc"
| "aggregate parse (row # rows) (resi_potentials, resi_names) =
     (case getitem row ''Resi_Seq'' of
        Inl e \<Rightarrow> Inl e
      | Inr resi_seq \<Rightarrow>
          (case getitem row ''Potential'' of
             Inl e \<Rightarrow> Inl e
           | Inr field \<Rightarrow>
               (case py_float parse field of
                  Inl e \<Rightarrow> Inl e
                | Inr potential \<Rightarrow>
                    (let resi_potentials' = add_potential resi_potentials resi_seq potential
                     in case getitem row ''Resi'' of
                          Inl e \<Rightarrow> Inl e
                        | Inr name \<Rightarrow>
                            aggregate parse rows
                              (resi_potentials', AList.update resi_seq name resi_names)))))"

subsection \<open>Writing\<close>

text \<open>\<^verbatim>\<open>resi_names[resi_seq]\<close> on the plain dictionary.\<close>

definition key_text :: "'f pyval \<Rightarrow> string" where
  "key_text k = (case k of Str s \<Rightarrow> s | _ \<Rightarrow> ''None'')"

definition names_getitem :: "'f names \<Rightarrow> 'f pyval \<Rightarrow> exn + 'f pyval" where
  "names_getitem d k =
     (case map_of d k of None \<Rightarrow> Inl (KeyError (key_text k)) | Some v \<Rightarrow> Inr v)"

text \<open>The row \<^verbatim>\<open>[resi_names[resi_seq], resi_seq, potential]\<close> given to \<^verbatim>\<open>writerow\<close>.\<close>

definition csv_row :: "'f pyval \<Rightarrow> 'f pyval \<Rightarrow> 'f \<Rightarrow> 'f pyval list" where
  "csv_row name resi_seq potential = [name, resi_seq, Float potential]"

text \<open>The dictionary of one table row, in the order of its keys.\<close>

definition table_row :: "'f pyval \<Rightarrow> 'f pyval \<Rightarrow> 'f \<Rightarrow> (string \<times> 'f pyval) list" where
  "table_row name resi_seq potential =
     [(''Resi'', name), (''Resi_Seq'', resi_seq), (''Resi_Potential'', Float potential)]"

text \<open>
  The loop of \<^verbatim>\<open>writerow\<close> calls over \<^verbatim>\<open>resi_potentials.items()\<close> (lines 83 and 84): the
  rows written so far, and the exception that ended the loop, if any.
\<close>

fun write_rows ::
  "'f names \<Rightarrow> 'f potentials \<Rightarrow> 'f pyval list list \<Rightarrow> exn option \<times> 'f pyval list list" where
  "write_rows resi_names [] written = (None, written)"
| "write_rows resi_names ((resi_seq, potential) # items) written =
     (case names_getitem resi_names resi_seq of
        Inl e \<Rightarrow> (Some e, written)
      | Inr name \<Rightarrow>
          write_rows resi_names items (written @ [csv_row name resi_seq potential]))"

text \<open>The list comprehension of lines 87 to 94.\<close>

fun table_data ::
  "'f names \<Rightarrow> 'f potentials \<Rightarrow> exn + (string \<times> 'f pyval) list list" where
  "table_data resi_names [] = Inr []"
| "table_data resi_names ((resi_seq, potential) # items) =
     (case names_getitem resi_names resi_seq of
        Inl e \<Rightarrow> Inl e
      | Inr name \<Rightarrow>
          (case table_data resi_names items of
             Inl e \<Rightarrow> Inl e
           | Inr rest \<Rightarrow>
               Inr (table_row name resi_seq potential # rest)))"

definition csv_header :: "'f pyval list" where
  "csv_header = [Str ''Resi'', Str ''Resi_Seq'', Str ''Resi_Potential'']"

subsection \<open>\<^verbatim>\<open>get_surface_resi\<close>\<close>

text \<open>What a file holds once it has been opened for writing and closed.\<close>

definition write_file ::
  "string \<Rightarrow> ('f, 't) content \<Rightarrow> ('f, 't) world \<Rightarrow> ('f, 't) world" where
  "write_file path c w = w\<lparr>files := (files w)(path \<mapsto> c)\<rparr>"

text \<open>The three paths of lines 57 to 65.\<close>

definition bept_cache_dir :: "string \<Rightarrow> string" where
  "bept_cache_dir output_dir = join output_dir ''.bept''"

definition output_csv_file :: "string \<Rightarrow> string \<Rightarrow> string" where
  "output_csv_file output_dir protein_file =
     join (bept_cache_dir output_dir) (protein_file @ ''_surface_data.csv'')"

definition output_tabulated_file :: "string \<Rightarrow> string \<Rightarrow> string" where
  "output_tabulated_file output_dir protein_file =
     join output_dir (protein_file @ ''_surface_data.txt'')"

text \<open>
  Lines 56 to 100 of the \<^verbatim>\<open>try\<close> statement: the directory, the aggregation and the
  two files. The result is the exception that ended them, if any, and the world.
  A file is created when \<^verbatim>\<open>open\<close> succeeds: a loop that raises leaves the rows
  written before it, and the text file is empty when \<^verbatim>\<open>tabulate\<close> raises.
\<close>

definition write_outputs ::
  "('f::{zero,plus}, 's, 't) env \<Rightarrow> string \<Rightarrow> string \<Rightarrow> string \<Rightarrow> ('f, 't) world \<Rightarrow>
   exn option \<times> ('f, 't) world" where
  "write_outputs E protein_file protein_bept_csvpath output_dir w =
     (case makedirs E (bept_cache_dir output_dir) of
        Some e \<Rightarrow> (Some e, w)
      | None \<Rightarrow>
     (case open_csv E protein_bept_csvpath of
        Inl e \<Rightarrow> (Some e, w)
      | Inr records \<Rightarrow>
     (case aggregate (to_float E) (DictReader records) ([], []) of
        Inl e \<Rightarrow> (Some e, w)
      | Inr (resi_potentials, resi_names) \<Rightarrow>
     (case open_write E (output_csv_file output_dir protein_file) of
        Some e \<Rightarrow> (Some e, w)
      | None \<Rightarrow>
     (case write_rows resi_names resi_potentials [csv_header] of
        (Some e, written) \<Rightarrow>
          (Some e, write_file (output_csv_file output_dir protein_file) (CsvFile written) w)
      | (None, written) \<Rightarrow>
     (let w1 = write_file (output_csv_file output_dir protein_file) (CsvFile written) w in
      case table_data resi_names resi_potentials of
        Inl e \<Rightarrow> (Some e, w1)
      | Inr table \<Rightarrow>
     (case open_write E (output_tabulated_file output_dir protein_file) of
        Some e \<Rightarrow> (Some e, w1)
      | None \<Rightarrow>
     (case tabulate E table of
        Inl e \<Rightarrow>
          (Some e, write_file (output_tabulated_file output_dir protein_file) EmptyFile w1)
      | Inr text \<Rightarrow>
          (None, write_file (output_tabulated_file output_dir protein_file) (TabFile text) w1)))))))))"

text \<open>Lines 104 to 108: the success line, then the SASA calculator.\<close>

definition report_success ::
  "('f, 's, 't) env \<Rightarrow> string \<Rightarrow> ('f, 't) world \<Rightarrow> exn option \<times> ('f, 't) world" where
  "report_success E protein_file w =
     (case print E (SuccessMsg protein_file) w of
        (Some e, w') \<Rightarrow> (Some e, w')
      | (None, w') \<Rightarrow> calc_sasa E protein_file w')"

text \<open>
  The body of the \<^verbatim>\<open>try\<close> statement: the exception that left it, if any, the value
  of \<^verbatim>\<open>destination_surface_resi_path\<close> at that moment (assigned on line 102, between
  the two parts), and the world.
\<close>

definition try_body ::
  "('f::{zero,plus}, 's, 't) env \<Rightarrow> string \<Rightarrow> string \<Rightarrow> string \<Rightarrow> ('f, 't) world \<Rightarrow>
   exn option \<times> string \<times> ('f, 't) world" where
  "try_body E protein_file protein_bept_csvpath output_dir w =
     (case write_outputs E protein_file protein_bept_csvpath output_dir w of
        (Some e, w') \<Rightarrow> (Some e, [], w')
      | (None, w') \<Rightarrow>
          (let destination_surface_resi_path = output_tabulated_file output_dir protein_file
           in case report_success E protein_file w' of
                (raised, w'') \<Rightarrow> (raised, destination_surface_resi_path, w'')))"

text \<open>
  The whole function: the handler (lines 110 to 112) prints the exception and sets
  the flag; an exception raised by that print is raised to the caller (\<open>Inl\<close>).
\<close>

definition get_surface_resi ::
  "('f::{zero,plus}, 's, 't) env \<Rightarrow> string \<Rightarrow> string \<Rightarrow> string \<Rightarrow> ('f, 't) world \<Rightarrow>
   (exn + string \<times> bool) \<times> ('f, 't) world" where
  "get_surface_resi E protein_file protein_bept_csvpath output_dir w =
     (case try_body E protein_file protein_bept_csvpath output_dir w of
        (None, destination_surface_resi_path, w') \<Rightarrow>
          (Inr (destination_surface_resi_path, False), w')
      | (Some e, destination_surface_resi_path, w') \<Rightarrow>
          (case print E (ErrorMsg e) w' of
             (Some e', w'') \<Rightarrow> (Inl e', w'')
           | (None, w'') \<Rightarrow> (Inr (destination_surface_resi_path, True), w'')))"

section \<open>The properties, in the words of the specification\<close>

text \<open>
  A row is well formed when it has the three fields and its \<^verbatim>\<open>Potential\<close> is a string
  that \<^verbatim>\<open>float\<close> converts. The three functions after it read the fields of such a
  row.
\<close>

definition wellformed :: "(string \<Rightarrow> 'f option) \<Rightarrow> (string \<rightharpoonup> 'f pyval) \<Rightarrow> bool" where
  "wellformed parse row \<longleftrightarrow>
     row ''Resi'' \<noteq> None \<and> row ''Resi_Seq'' \<noteq> None \<and>
     (case row ''Potential'' of Some (Str s) \<Rightarrow> parse s \<noteq> None | _ \<Rightarrow> False)"

definition Resi_of :: "(string \<rightharpoonup> 'f pyval) \<Rightarrow> 'f pyval" where
  "Resi_of row = the (row ''Resi'')"

definition Resi_Seq_of :: "(string \<rightharpoonup> 'f pyval) \<Rightarrow> 'f pyval" where
  "Resi_Seq_of row = the (row ''Resi_Seq'')"

definition Potential_of :: "(string \<Rightarrow> 'f option) \<Rightarrow> (string \<rightharpoonup> 'f pyval) \<Rightarrow> 'f" where
  "Potential_of parse row =
     the (case row ''Potential'' of Some (Str s) \<Rightarrow> parse s | _ \<Rightarrow> None)"

text \<open>A row whose \<^verbatim>\<open>Potential\<close> is missing, is \<^verbatim>\<open>None\<close> or does not convert.\<close>

definition bad_potential :: "(string \<Rightarrow> 'f option) \<Rightarrow> (string \<rightharpoonup> 'f pyval) \<Rightarrow> bool" where
  "bad_potential parse row =
     (case row ''Potential'' of
        None \<Rightarrow> True
      | Some PyNone \<Rightarrow> True
      | Some (Str s) \<Rightarrow> parse s = None
      | Some (Float x) \<Rightarrow> False)"

text \<open>The distinct elements of a list, in the order of their first occurrence.\<close>

primrec first_seen :: "'a list \<Rightarrow> 'a list" where
  "first_seen [] = []"
| "first_seen (x # xs) = x # filter (\<lambda>y. y \<noteq> x) (first_seen xs)"

text \<open>The rows of a key, in input order.\<close>

definition rows_of :: "'f pyval \<Rightarrow> (string \<rightharpoonup> 'f pyval) list \<Rightarrow> (string \<rightharpoonup> 'f pyval) list" where
  "rows_of k rows = filter (\<lambda>row. Resi_Seq_of row = k) rows"

text \<open>
  The report the specification describes: one triple of name, key and potential
  for each distinct key, in the order of first occurrence; the name is that of the
  last row of the key, the potential is the sum of the key's rows, accumulated from
  \<open>0\<close> in input order.
\<close>

definition surface_report ::
  "(string \<Rightarrow> 'f option) \<Rightarrow> (string \<rightharpoonup> 'f pyval) list \<Rightarrow>
   ('f pyval \<times> 'f pyval \<times> 'f::{zero,plus}) list" where
  "surface_report parse rows =
     map (\<lambda>k. (Resi_of (last (rows_of k rows)), k,
               foldl (+) 0 (map (Potential_of parse) (rows_of k rows))))
       (first_seen (map Resi_Seq_of rows))"

text \<open>A file name with its last four characters, the suffix \<^verbatim>\<open>.pdb\<close>, removed.\<close>

definition without_pdb_suffix :: "string \<Rightarrow> string" where
  "without_pdb_suffix protein_file = take (length protein_file - length ''.pdb'') protein_file"

text \<open>The records the reader turns into rows: those after the header that are not blank.\<close>

definition data_records :: "string list list \<Rightarrow> string list list" where
  "data_records records = filter (\<lambda>record. record \<noteq> []) (tl records)"

text \<open>A file whose header, if it has one, does not name the column.\<close>

definition lacks_column :: "string \<Rightarrow> string list list \<Rightarrow> bool" where
  "lacks_column name records =
     (case records of [] \<Rightarrow> True | fieldnames # rest \<Rightarrow> name \<notin> set fieldnames)"


section \<open>Python's \<^verbatim>\<open>float\<close>\<close>

text \<open>
  The float type of the program is the IEEE 754 binary64 format. Every finite
  double is an integer multiple of \<open>2\<^sup>-\<^sup>1\<^sup>0\<^sup>7\<^sup>4\<close>: \<open>Finite n\<close> is the double of value
  \<open>n \<times> 2\<^sup>-\<^sup>1\<^sup>0\<^sup>7\<^sup>4\<close>, and \<open>Finite 0\<close> is \<open>+0.0\<close>. So \<open>1.0\<close> is \<open>Finite (2 ^ 1074)\<close>.
\<close>

datatype pyfloat = Finite int | NegZero | PosInf | NegInf | NaN

text \<open>\<^verbatim>\<open>int.bit_length\<close>.\<close>

function bit_length :: "int \<Rightarrow> int" where
  "bit_length n = (if n \<le> 0 then 0 else 1 + bit_length (n div 2))"
  by pat_completeness auto
termination
  by (relation "measure nat") auto

text \<open>
  \<open>round_ratio num den\<close> rounds the quotient \<open>num / den\<close> (\<open>0 \<le> num\<close>, \<open>0 < den\<close>) to the
  nearest integer with at most 53 significant bits, ties to the even significand:
  the rounding of binary64 in the unit \<open>2\<^sup>-\<^sup>1\<^sup>0\<^sup>7\<^sup>4\<close>, subnormal numbers included.
\<close>

definition round_ratio :: "int \<Rightarrow> int \<Rightarrow> int" where
  "round_ratio num den =
     (let l = bit_length (num div den);
          unit = (if l \<le> 53 then 1 else 2 ^ nat (l - 53));
          q = num div (den * unit);
          r = num mod (den * unit)
      in if 2 * r < den * unit then q * unit
         else if den * unit < 2 * r then (q + 1) * unit
         else if even q then q * unit else (q + 1) * unit)"

text \<open>
  The double nearest to \<open>\<plusminus> num / den\<close> (in the unit \<open>2\<^sup>-\<^sup>1\<^sup>0\<^sup>7\<^sup>4\<close>): a result of \<open>2\<^sup>1\<^sup>0\<^sup>2\<^sup>4\<close> or
  more overflows to an infinity, and a result of zero keeps the sign.
\<close>

definition to_double :: "bool \<Rightarrow> int \<Rightarrow> int \<Rightarrow> pyfloat" where
  "to_double negative num den =
     (let n = round_ratio num den
      in if 2 ^ 2098 \<le> n then (if negative then NegInf else PosInf)
         else if n = 0 then (if negative then NegZero else Finite 0)
         else Finite (if negative then - n else n))"

text \<open>
  Addition, rounding to nearest: a sum that is exactly zero is \<open>+0.0\<close> unless both
  operands are \<open>-0.0\<close>.
\<close>

fun fadd :: "pyfloat \<Rightarrow> pyfloat \<Rightarrow> pyfloat" where
  "fadd NaN y = NaN"
| "fadd x NaN = NaN"
| "fadd PosInf NegInf = NaN"
| "fadd NegInf PosInf = NaN"
| "fadd PosInf y = PosInf"
| "fadd x PosInf = PosInf"
| "fadd NegInf y = NegInf"
| "fadd x NegInf = NegInf"
| "fadd NegZero y = y"
| "fadd x NegZero = x"
| "fadd (Finite a) (Finite b) =
     (if a + b = 0 then Finite 0 else to_double (a + b < 0) \<bar>a + b\<bar> 1)"

instantiation pyfloat :: "{zero,plus}"
begin

definition zero_pyfloat :: pyfloat where
  "zero_pyfloat = Finite 0"

definition plus_pyfloat :: "pyfloat \<Rightarrow> pyfloat \<Rightarrow> pyfloat" where
  "plus_pyfloat = fadd"

instance ..

end

text \<open>The double of an integer value (exact when the integer has at most 53 bits).\<close>

definition double_of_int :: "int \<Rightarrow> pyfloat" where
  "double_of_int m = Finite (m * 2 ^ 1074)"

subsection \<open>\<^verbatim>\<open>float\<close> of a string\<close>

text \<open>
  \<^verbatim>\<open>float(s)\<close> for a string of characters below 256, as CPython reads it: white
  space (the six of ASCII, and the two of Latin-1, next line and no-break space) is
  stripped at both ends; an underscore may stand between two digits; then comes an
  optional sign and either \<^verbatim>\<open>inf\<close>, \<^verbatim>\<open>infinity\<close> or \<^verbatim>\<open>nan\<close> in any case, or a decimal
  number: digits with an optional point, at least one digit, and an optional
  exponent. The decimal value is rounded correctly. Anything else is a
  \<^verbatim>\<open>ValueError\<close>, here \<open>None\<close>. (The digits and spaces of Unicode from 256 on, which
  \<^verbatim>\<open>float\<close> also accepts, are no characters of this model.)
\<close>

definition is_space :: "char \<Rightarrow> bool" where
  "is_space c \<longleftrightarrow>
     c \<in> set [CHR '' '', CHR 0x09, CHR 0x0A, CHR 0x0B, CHR 0x0C, CHR 0x0D, CHR 0x85, CHR 0xA0]"

definition is_digit :: "char \<Rightarrow> bool" where
  "is_digit c \<longleftrightarrow> c \<in> set ''0123456789''"

definition strip :: "string \<Rightarrow> string" where
  "strip s = rev (dropWhile is_space (rev (dropWhile is_space s)))"

fun without_underscores :: "char \<Rightarrow> string \<Rightarrow> string option" where
  "without_underscores prev [] = (if prev = CHR ''_'' then None else Some [])"
| "without_underscores prev (c # cs) =
     (if c = CHR ''_'' then (if is_digit prev then without_underscores c cs else None)
      else if prev = CHR ''_'' \<and> \<not> is_digit c then None
      else map_option ((#) c) (without_underscores c cs))"

definition lower :: "char \<Rightarrow> char" where
  "lower c =
     (case map_of (zip ''ABCDEFGHIJKLMNOPQRSTUVWXYZ'' ''abcdefghijklmnopqrstuvwxyz'') c of
        None \<Rightarrow> c
      | Some l \<Rightarrow> l)"

definition split_sign :: "string \<Rightarrow> bool \<times> string" where
  "split_sign s =
     (case s of
        [] \<Rightarrow> (False, [])
      | c # cs \<Rightarrow>
          if c = CHR ''-'' then (True, cs)
          else if c = CHR ''+'' then (False, cs)
          else (False, s))"

definition digits_value :: "string \<Rightarrow> int" where
  "digits_value ds = foldl (\<lambda>n c. 10 * n + (of_char c - 48)) 0 ds"

text \<open>A decimal number \<open>m \<times> 10\<^sup>k\<close> as the pair \<open>(m, k)\<close>.\<close>

definition parse_decimal :: "string \<Rightarrow> (int \<times> int) option" where
  "parse_decimal s =
     (let ip = takeWhile is_digit s;
          r1 = dropWhile is_digit s;
          (fp, r2) =
            (case r1 of
               [] \<Rightarrow> ([], [])
             | c # cs \<Rightarrow>
                 if c = CHR ''.'' then (takeWhile is_digit cs, dropWhile is_digit cs)
                 else ([], r1))
      in if ip = [] \<and> fp = [] then None
         else
           (case r2 of
              [] \<Rightarrow> Some (digits_value (ip @ fp), - int (length fp))
            | c # cs \<Rightarrow>
                if c = CHR ''e'' \<or> c = CHR ''E'' then
                  (let (eneg, r3) = split_sign cs;
                       ed = takeWhile is_digit r3
                   in if ed = [] \<or> dropWhile is_digit r3 \<noteq> [] then None
                      else Some (digits_value (ip @ fp),
                                 (if eneg then - digits_value ed else digits_value ed)
                                   - int (length fp)))
                else None))"

definition float_of_string :: "string \<Rightarrow> pyfloat option" where
  "float_of_string s =
     (case without_underscores (CHR 0x00) (strip s) of
        None \<Rightarrow> None
      | Some t \<Rightarrow>
          (let (negative, body) = split_sign t;
               low = map lower body
           in if low = ''inf'' \<or> low = ''infinity'' then Some (if negative then NegInf else PosInf)
              else if low = ''nan'' then Some NaN
              else
                (case parse_decimal body of
                   None \<Rightarrow> None
                 | Some (m, k) \<Rightarrow>
                     Some (if 0 \<le> k then to_double negative (m * 10 ^ nat k * 2 ^ 1074) 1
                           else to_double negative (m * 2 ^ 1074) (10 ^ nat (- k))))))"

section \<open>Concrete runs\<close>

text \<open>
  An environment in which every collaborator succeeds: the directories and files
  can be made, the input file holds the given records, the console takes every
  line, the structure file is found (the structure is named by its identifier) and
  its area is \<open>0.0\<close>. Floats are the doubles above. The text of a table is left
  unformatted: it is the table itself.
\<close>

type_synonym table = "(string \<times> pyfloat pyval) list list"

definition ok_env :: "string list list \<Rightarrow> (pyfloat, string, table) env" where
  "ok_env records =
     \<lparr>makedirs = (\<lambda>path. None),
      open_csv = (\<lambda>path. Inr records),
      open_write = (\<lambda>path. None),
      to_float = float_of_string,
      tabulate = (\<lambda>table. Inr table),
      console_print = (\<lambda>m. None),
      get_structure = (\<lambda>protein_id protein_file. Inr protein_id),
      sasa_of = (\<lambda>struct. Inr (Finite 0))\<rparr>"

text \<open>The same, but the structure file is missing: the parser raises.\<close>

definition no_pdb_env :: "string list list \<Rightarrow> (pyfloat, string, table) env" where
  "no_pdb_env records =
     (ok_env records)
       \<lparr>get_structure := (\<lambda>protein_id protein_file. Inl (External ''No such file or directory''))\<rparr>"

definition empty_world :: "(pyfloat, 't) world" where
  "empty_world = \<lparr>files = Map.empty, console = []\<rparr>"

text \<open>
  An input file: a header with a fourth column, three data rows, two of them with
  the key \<^verbatim>\<open>12\<close> and different names, and a blank line.
\<close>

definition demo_records :: "string list list" where
  "demo_records =
     [[''Resi'', ''Resi_Seq'', ''Potential'', ''Atom''],
      [''ALA'', ''12'', ''1.5'', ''CA''],
      [''GLY'', ''13'', ''0.0'', ''N''],
      [],
      [''VAL'', ''12'', ''2.5'', ''CB'']]"



text \<open>Input files: a potential that is no number, no \<^verbatim>\<open>Potential\<close> column, a header only.\<close>

definition unparsable_records :: "string list list" where
  "unparsable_records =
     [[''Resi'', ''Resi_Seq'', ''Potential''],
      [''ALA'', ''12'', ''1.5''],
      [''GLY'', ''13'', ''n/a'']]"

definition no_potential_records :: "string list list" where
  "no_potential_records =
     [[''Resi'', ''Resi_Seq''],
      [''ALA'', ''12'']]"

definition header_only_records :: "string list list" where
  "header_only_records = [[''Resi'', ''Resi_Seq'']]"

text \<open>
  A potential that \<^verbatim>\<open>rich\<close> reads as markup: the error line of its \<^verbatim>\<open>ValueError\<close> holds
  the closing tag \<^verbatim>\<open>[/]\<close> with nothing to close, and \<^verbatim>\<open>CONSOLE.print\<close> raises
  \<^verbatim>\<open>MarkupError\<close> on it.
\<close>

definition markup_records :: "string list list" where
  "markup_records =
     [[''Resi'', ''Resi_Seq'', ''Potential''],
      [''ALA'', ''12'', ''[/]'']]"

definition markup_env :: "(pyfloat, string, table) env" where
  "markup_env =
     (ok_env markup_records)
       \<lparr>console_print :=
          (\<lambda>m. if m = ErrorMsg (ValueError ''[/]'')
                then Some (External ''closing tag [/] has nothing to close'')
                else None)\<rparr>"

text \<open>
  An input on which rounding shows: \<open>1e16 + 1.0\<close> is \<open>1e16\<close> in binary64 (the sum lies
  halfway between two doubles and the tie goes to the even significand).
\<close>

definition rounding_records :: "string list list" where
  "rounding_records =
     [[''Resi'', ''Resi_Seq'', ''Potential''],
      [''ALA'', ''1'', ''1e16''],
      [''GLY'', ''2'', ''1.0''],
      [''ALA'', ''1'', ''1.0''],
      [''GLY'', ''2'', ''1.0'']]"

text \<open>
  Two input files whose only potentials are \<open>1000000\<close> and \<open>1000001\<close>, in an
  environment where \<^verbatim>\<open>tabulate\<close> formats as it does: a float is shown with six
  significant digits, so both potentials appear as \<^verbatim>\<open>1e+06\<close> and both tables are the
  same text. The text is given by its lines, each as the list of its cells.
\<close>

definition million_records :: "string list list" where
  "million_records =
     [[''Resi'', ''Resi_Seq'', ''Potential''],
      [''ALA'', ''1'', ''1000000'']]"

definition million_one_records :: "string list list" where
  "million_one_records =
     [[''Resi'', ''Resi_Seq'', ''Potential''],
      [''ALA'', ''1'', ''1000001'']]"

definition format_env :: "(pyfloat, string, string list list) env" where
  "format_env =
     \<lparr>makedirs = (\<lambda>path. None),
      open_csv = (\<lambda>path. if path = ''b.csv'' then Inr million_one_records
                          else Inr million_records),
      open_write = (\<lambda>path. None),
      to_float = float_of_string,
      tabulate = (\<lambda>table. Inr [[''Resi'', ''Resi_Seq'', ''Resi_Potential''],
                                  [''ALA'', ''1'', ''1e+06'']]),
      console_print = (\<lambda>m. None),
      get_structure = (\<lambda>protein_id protein_file. Inr protein_id),
      sasa_of = (\<lambda>struct. Inr (Finite 0))\<rparr>"

section \<open>Lemmas about the embedding\<close>

subsection \<open>Paths\<close>

lemma rfind_snoc: "rfind (p @ [x]) c = (if x = c then int (length p) else rfind p c)"
  by (auto simp: rfind_def)

lemma rfind_append_notin: "c \<notin> set s \<Longrightarrow> rfind (p @ s) c = rfind p c"
  by (induction s rule: rev_induct) (auto simp: rfind_snoc simp flip: append_assoc)

lemma rfind_bounds: "- 1 \<le> rfind p c \<and> rfind p c < int (length p)"
  by (induction p rule: rev_induct) (auto simp: rfind_snoc rfind_def)

lemma rfind_pdb_dot: "rfind (q @ ''.pdb'') CHR ''.'' = int (length q)"
proof -
  have "rfind ((q @ ''.'') @ ''pdb'') CHR ''.'' = rfind (q @ ''.'') CHR ''.''"
    by (rule rfind_append_notin) simp
  then show ?thesis by (simp add: rfind_snoc)
qed

lemma rfind_pdb_sep: "rfind (q @ ''.pdb'') CHR ''/'' = rfind q CHR ''/''"
  by (rule rfind_append_notin) simp

lemma splitext_scan_eq:
  "0 \<le> i \<Longrightarrow> d \<le> int (length p) \<Longrightarrow>
   splitext_scan p i d =
     (if \<exists>c \<in> set (take (nat (d - i)) (drop (nat i) p)). c \<noteq> CHR ''.''
      then (take (nat d) p, drop (nat d) p) else (p, []))"
proof (induction p i d rule: splitext_scan.induct)
  case (1 p i d)
  note pr = "1.prems"
  show ?case
  proof (cases "i < d")
    case False
    then show ?thesis by (subst splitext_scan.simps) simp
  next
    case True
    have lt: "nat i < length p" using True pr by linarith
    define c where "c = p ! nat i"
    define rest where "rest = drop (Suc (nat i)) p"
    have dr: "drop (nat i) p = c # rest"
      unfolding c_def rest_def using lt by (simp add: Cons_nth_drop_Suc)
    have si: "nat (i + 1) = Suc (nat i)" using pr by linarith
    have n: "nat (d - i) = Suc (nat (d - (i + 1)))" using True by linarith
    show ?thesis
    proof (cases "c = CHR ''.''")
      case cdot: True
      have t1: "\<not> take 1 (drop (nat i) p) \<noteq> ''.''" using dr cdot by simp
      have "splitext_scan p i d = splitext_scan p (i + 1) d"
        using True t1 by (subst splitext_scan.simps) simp
      also have "\<dots> = (if \<exists>c \<in> set (take (nat (d - (i + 1))) (drop (nat (i + 1)) p)). c \<noteq> CHR ''.''
          then (take (nat d) p, drop (nat d) p) else (p, []))"
        using pr by (intro "1.IH"[OF True t1]) auto
      also have "\<dots> = (if \<exists>c \<in> set (take (nat (d - i)) (drop (nat i) p)). c \<noteq> CHR ''.''
          then (take (nat d) p, drop (nat d) p) else (p, []))"
        unfolding n dr si using cdot by (simp add: rest_def)
      finally show ?thesis .
    next
      case False
      have t1: "take 1 (drop (nat i) p) \<noteq> ''.''" using dr False by simp
      have "\<exists>c \<in> set (take (nat (d - i)) (drop (nat i) p)). c \<noteq> CHR ''.''"
        unfolding n dr using False by simp
      then show ?thesis using True t1
        by (subst splitext_scan.simps) simp
    qed
  qed
qed

lemma splitext_pdb:
  "splitext (q @ ''.pdb'') =
     (if \<exists>c \<in> set (basename q). c \<noteq> CHR ''.'' then (q, ''.pdb'') else (q @ ''.pdb'', []))"
proof -
  let ?s = "rfind q CHR ''/''"
  have b: "- 1 \<le> ?s" "?s < int (length q)" using rfind_bounds[of q "CHR ''/''"] by auto
  have "splitext (q @ ''.pdb'') = splitext_scan (q @ ''.pdb'') (?s + 1) (int (length q))"
    using b by (simp add: splitext_def rfind_pdb_dot rfind_pdb_sep Let_def)
  also have "\<dots> = (if \<exists>c \<in> set (take (nat (int (length q) - (?s + 1))) (drop (nat (?s + 1)) (q @ ''.pdb''))). c \<noteq> CHR ''.''
      then (take (nat (int (length q))) (q @ ''.pdb''), drop (nat (int (length q))) (q @ ''.pdb'')) else (q @ ''.pdb'', []))"
    using b by (intro splitext_scan_eq) auto
  also have "take (nat (int (length q) - (?s + 1))) (drop (nat (?s + 1)) (q @ ''.pdb'')) = basename q"
    using b by (simp add: basename_def)
  finally show ?thesis by simp
qed


subsection \<open>The aggregation loop on well-formed rows\<close>

lemma aggregate_step:
  "wellformed parse row \<Longrightarrow>
   aggregate parse (row # rows) (P, N) =
     aggregate parse rows
       (add_potential P (Resi_Seq_of row) (Potential_of parse row),
        AList.update (Resi_Seq_of row) (Resi_of row) N)"
  by (auto simp: wellformed_def getitem_def py_float_def Resi_of_def Resi_Seq_of_def
        Potential_of_def split: option.splits pyval.splits)

lemma aggregate_succeeds:
  "\<forall>row \<in> set rows. wellformed parse row \<Longrightarrow> \<exists>P' N'. aggregate parse rows (P, N) = Inr (P', N')"
proof (induction rows arbitrary: P N)
  case Nil
  then show ?case by simp
next
  case (Cons row rows)
  then show ?case by (simp only: aggregate_step list.set_intros) auto
qed

lemma set_first_seen: "set (first_seen xs) = set xs"
  by (induction xs) auto

lemma distinct_first_seen: "distinct (first_seen xs)"
  by (induction xs) (auto simp: set_first_seen)

lemma keys_add_potential:
  "map fst (add_potential P k x) = (if k \<in> set (map fst P) then map fst P else map fst P @ [k])"
  by (simp add: add_potential_def update_keys)

lemma first_seen_step:
  "ks @ filter (\<lambda>y. y \<notin> set ks) (first_seen (k # xs)) =
   (if k \<in> set ks then ks else ks @ [k]) @
     filter (\<lambda>y. y \<notin> set (if k \<in> set ks then ks else ks @ [k])) (first_seen xs)"
  by (auto intro: filter_cong)

lemma aggregate_keys:
  "\<forall>row \<in> set rows. wellformed parse row \<Longrightarrow> aggregate parse rows (P, N) = Inr (P', N') \<Longrightarrow>
   map fst P' = map fst P @ filter (\<lambda>k. k \<notin> set (map fst P)) (first_seen (map Resi_Seq_of rows))"
proof (induction rows arbitrary: P N)
  case Nil
  then show ?case by simp
next
  case (Cons row rows)
  let ?k = "Resi_Seq_of row"
  let ?P1 = "add_potential P ?k (Potential_of parse row)"
  from Cons.prems have wf: "wellformed parse row" and wfs: "\<forall>row \<in> set rows. wellformed parse row"
    by auto
  from Cons.prems(2) have "aggregate parse rows (?P1, AList.update ?k (Resi_of row) N) = Inr (P', N')"
    by (simp only: aggregate_step[OF wf])
  from Cons.IH[OF wfs this]
  have "map fst P' = map fst ?P1 @ filter (\<lambda>k. k \<notin> set (map fst ?P1)) (first_seen (map Resi_Seq_of rows))" .
  also have "\<dots> = map fst P @ filter (\<lambda>y. y \<notin> set (map fst P)) (first_seen (?k # map Resi_Seq_of rows))"
    unfolding first_seen_step keys_add_potential ..
  finally show ?case by simp
qed

lemma aggregate_name_keys:
  "\<forall>row \<in> set rows. wellformed parse row \<Longrightarrow> aggregate parse rows (P, N) = Inr (P', N') \<Longrightarrow>
   fst ` set N' = fst ` set N \<union> set (map Resi_Seq_of rows)"
proof (induction rows arbitrary: P N)
  case Nil
  then show ?case by simp
next
  case (Cons row rows)
  from Cons.prems have wf: "wellformed parse row" and wfs: "\<forall>row \<in> set rows. wellformed parse row"
    by auto
  from Cons.prems(2) have "aggregate parse rows (add_potential P (Resi_Seq_of row) (Potential_of parse row),
      AList.update (Resi_Seq_of row) (Resi_of row) N) = Inr (P', N')"
    by (simp only: aggregate_step[OF wf])
  from Cons.IH[OF wfs this] show ?case by (auto simp: dom_update)
qed

lemma aggregate_names:
  "\<forall>row \<in> set rows. wellformed parse row \<Longrightarrow> aggregate parse rows (P, N) = Inr (P', N') \<Longrightarrow>
   map_of N' k = (if rows_of k rows = [] then map_of N k else Some (Resi_of (last (rows_of k rows))))"
proof (induction rows arbitrary: P N)
  case Nil
  then show ?case by (simp add: rows_of_def)
next
  case (Cons row rows)
  from Cons.prems have wf: "wellformed parse row" and wfs: "\<forall>row \<in> set rows. wellformed parse row"
    by auto
  from Cons.prems(2) have "aggregate parse rows (add_potential P (Resi_Seq_of row) (Potential_of parse row),
      AList.update (Resi_Seq_of row) (Resi_of row) N) = Inr (P', N')"
    by (simp only: aggregate_step[OF wf])
  from Cons.IH[OF wfs this] show ?case by (auto simp: rows_of_def update_conv')
qed

lemma default_get_add_potential:
  "default_get (add_potential P k x) k' = (if k' = k then default_get P k + x else default_get P k')"
  by (simp add: default_get_def add_potential_def update_conv')

lemma aggregate_potentials:
  "\<forall>row \<in> set rows. wellformed parse row \<Longrightarrow> aggregate parse rows (P, N) = Inr (P', N') \<Longrightarrow>
   default_get P' k = foldl (+) (default_get P k) (map (Potential_of parse) (rows_of k rows))"
proof (induction rows arbitrary: P N)
  case Nil
  then show ?case by (simp add: rows_of_def)
next
  case (Cons row rows)
  from Cons.prems have wf: "wellformed parse row" and wfs: "\<forall>row \<in> set rows. wellformed parse row"
    by auto
  from Cons.prems(2) have "aggregate parse rows (add_potential P (Resi_Seq_of row) (Potential_of parse row),
      AList.update (Resi_Seq_of row) (Resi_of row) N) = Inr (P', N')"
    by (simp only: aggregate_step[OF wf])
  from Cons.IH[OF wfs this] show ?case by (auto simp: rows_of_def default_get_add_potential)
qed

lemma add_potential_distinct: "distinct (map fst P) \<Longrightarrow> distinct (map fst (add_potential P k x))"
  by (simp add: add_potential_def distinct_update)

lemma write_rows_ok:
  "fst ` set P \<subseteq> fst ` set N \<Longrightarrow>
   write_rows N P acc = (None, acc @ map (\<lambda>(k, x). csv_row (the (map_of N k)) k x) P)"
proof (induction P arbitrary: acc)
  case Nil
  then show ?case by simp
next
  case (Cons kx P)
  obtain k x where kx: "kx = (k, x)" by (cases kx)
  with Cons.prems obtain n where n: "map_of N k = Some n"
    by (metis (no_types, opaque_lifting) domD dom_map_of_conv_image_fst fst_conv image_subset_iff list.set_intros(1))
  from Cons.prems have "fst ` set P \<subseteq> fst ` set N" by auto
  from Cons.IH[OF this] show ?case using n by (simp add: kx names_getitem_def)
qed

lemma table_data_ok:
  "fst ` set P \<subseteq> fst ` set N \<Longrightarrow>
   table_data N P = Inr (map (\<lambda>(k, x). table_row (the (map_of N k)) k x) P)"
proof (induction P)
  case Nil
  then show ?case by simp
next
  case (Cons kx P)
  obtain k x where kx: "kx = (k, x)" by (cases kx)
  with Cons.prems obtain n where n: "map_of N k = Some n"
    by (metis (no_types, opaque_lifting) domD dom_map_of_conv_image_fst fst_conv image_subset_iff list.set_intros(1))
  from Cons.prems have "fst ` set P \<subseteq> fst ` set N" by auto
  from Cons.IH[OF this] show ?case using n by (simp add: kx names_getitem_def)
qed




subsection \<open>The files of a run\<close>

lemma join_suffix: "suffix b (join a b)"
  by (auto simp: join_def suffix_def)

lemma join_nonempty: "b \<noteq> [] \<Longrightarrow> join a b \<noteq> []"
  using join_suffix[of b a] by (auto simp: suffix_def)

lemma output_paths_differ: "output_csv_file od pf \<noteq> output_tabulated_file od' pf'"
proof
  assume eq: "output_csv_file od pf = output_tabulated_file od' pf'"
  have "suffix ''v'' (pf @ ''_surface_data.csv'')" by (simp add: suffix_def)
  then have "suffix ''v'' (output_csv_file od pf)"
    unfolding output_csv_file_def by (rule suffix_order.trans[OF _ join_suffix])
  moreover have "suffix ''t'' (pf' @ ''_surface_data.txt'')" by (simp add: suffix_def)
  then have "suffix ''t'' (output_tabulated_file od' pf')"
    unfolding output_tabulated_file_def by (rule suffix_order.trans[OF _ join_suffix])
  ultimately show False using eq by (auto simp: suffix_def)
qed

lemma output_tabulated_file_nonempty: "output_tabulated_file od pf \<noteq> []"
  unfolding output_tabulated_file_def by (rule join_nonempty) simp

lemma files_print: "files (snd (print E m w)) = files w"
  by (simp add: print_def split: option.splits)

lemma files_calc_sasa: "files (snd (calc_sasa E pf w)) = files w"
  by (simp add: calc_sasa_def files_print split: sum.splits prod.splits)

lemma files_report_success: "files (snd (report_success E pf w)) = files w"
proof (cases "print E (SuccessMsg pf) w")
  case (Pair r w')
  then have "files w' = files w" using files_print[of E "SuccessMsg pf" w] by simp
  then show ?thesis using Pair by (simp add: report_success_def files_calc_sasa split: option.splits)
qed

lemma files_try_body:
  "files (snd (snd (try_body E pf cp od w))) = files (snd (write_outputs E pf cp od w))"
  by (auto simp: try_body_def Let_def files_report_success split: prod.splits option.splits)
     (metis files_report_success snd_conv)

lemma files_get_surface_resi:
  "files (snd (get_surface_resi E pf cp od w)) = files (snd (write_outputs E pf cp od w))"
proof -
  obtain r d w' where tb: "try_body E pf cp od w = (r, d, w')" by (cases "try_body E pf cp od w")
  then have f: "files w' = files (snd (write_outputs E pf cp od w))"
    using files_try_body[of E pf cp od w] by simp
  show ?thesis
  proof (cases r)
    case None
    then show ?thesis using tb f by (simp add: get_surface_resi_def)
  next
    case (Some e)
    obtain r' w'' where p: "print E (ErrorMsg e) w' = (r', w'')" by (cases "print E (ErrorMsg e) w'")
    then have "files w'' = files w'" using files_print[of E "ErrorMsg e" w'] by simp
    then show ?thesis using tb f Some p by (simp add: get_surface_resi_def split: option.splits)
  qed
qed

lemma write_outputs_None:
  assumes "fst (write_outputs E pf cp od w) = None"
  shows "\<exists>records P N rows table text.
           open_csv E cp = Inr records \<and>
           aggregate (to_float E) (DictReader records) ([], []) = Inr (P, N) \<and>
           write_rows N P [csv_header] = (None, rows) \<and>
           table_data N P = Inr table \<and>
           tabulate E table = Inr text \<and>
           snd (write_outputs E pf cp od w) =
             write_file (output_tabulated_file od pf) (TabFile text)
               (write_file (output_csv_file od pf) (CsvFile rows) w)"
  using assms
  by (auto simp: write_outputs_def Let_def split: option.splits sum.splits prod.splits)

lemma write_outputs_csv_written:
  assumes "makedirs E (bept_cache_dir od) = None"
    and "open_csv E cp = Inr records"
    and "aggregate (to_float E) (DictReader records) ([], []) = Inr (P, N)"
    and "open_write E (output_csv_file od pf) = None"
  shows "files (snd (write_outputs E pf cp od w)) (output_csv_file od pf) =
           Some (CsvFile (snd (write_rows N P [csv_header])))"
  using assms output_paths_differ[of od pf od pf]
  by (auto simp: write_outputs_def Let_def write_file_def split: option.splits sum.splits prod.splits)

subsection \<open>What a run writes\<close>

lemma alist_default_get:
  "distinct (map fst P) \<Longrightarrow> (k, x) \<in> set P \<Longrightarrow> default_get P k = x"
  by (simp add: default_get_def)

lemma aggregate_key_sets:
  assumes "\<forall>row \<in> set rows. wellformed parse row"
    and "aggregate parse rows ([], []) = Inr (P, N)"
  shows "map fst P = first_seen (map Resi_Seq_of rows)"
    and "fst ` set N = set (map Resi_Seq_of rows)"
  using aggregate_keys[OF assms] aggregate_name_keys[OF assms] by simp_all

lemma aggregate_report:
  assumes wf: "\<forall>row \<in> set rows. wellformed parse row"
    and ag: "aggregate parse rows ([], []) = Inr (P, N)"
  shows "map (\<lambda>(k, x). (the (map_of N k), k, x)) P = surface_report parse rows"
proof -
  have keys: "map fst P = first_seen (map Resi_Seq_of rows)"
    by (rule aggregate_key_sets[OF wf ag])
  then have dist: "distinct (map fst P)" by (simp add: distinct_first_seen)
  have each: "(the (map_of N k), k, x) =
      (Resi_of (last (rows_of k rows)), k, foldl (+) 0 (map (Potential_of parse) (rows_of k rows)))"
    if kx: "(k, x) \<in> set P" for k x
  proof -
    from kx have "k \<in> set (map fst P)" by force
    then have "k \<in> set (map Resi_Seq_of rows)" by (simp add: keys set_first_seen)
    then have ne: "rows_of k rows \<noteq> []" by (auto simp: rows_of_def filter_empty_conv)
    have "map_of N k = Some (Resi_of (last (rows_of k rows)))"
      using aggregate_names[OF wf ag, of k] ne by simp
    moreover have "x = foldl (+) 0 (map (Potential_of parse) (rows_of k rows))"
      using aggregate_potentials[OF wf ag, of k] alist_default_get[OF dist kx]
      by (simp add: default_get_def)
    ultimately show ?thesis by simp
  qed
  have "map (\<lambda>(k, x). (the (map_of N k), k, x)) P =
        map (\<lambda>(k, x). (Resi_of (last (rows_of k rows)), k,
               foldl (+) 0 (map (Potential_of parse) (rows_of k rows)))) P"
    using each by (intro map_cong) auto
  also have "\<dots> = map (\<lambda>k. (Resi_of (last (rows_of k rows)), k,
               foldl (+) 0 (map (Potential_of parse) (rows_of k rows)))) (map fst P)"
    by (simp add: case_prod_beta comp_def)
  finally show ?thesis by (simp add: surface_report_def keys)
qed

lemma aggregate_writes:
  assumes wf: "\<forall>row \<in> set rows. wellformed parse row"
    and ag: "aggregate parse rows ([], []) = Inr (P, N)"
  shows "write_rows N P [csv_header] =
           (None, csv_header # map (\<lambda>(n, k, x). csv_row n k x) (surface_report parse rows))"
    and "table_data N P = Inr (map (\<lambda>(n, k, x). table_row n k x) (surface_report parse rows))"
proof -
  have sub: "fst ` set P \<subseteq> fst ` set N"
    using aggregate_key_sets[OF wf ag] by (metis list.set_map set_first_seen subset_refl)
  have r: "surface_report parse rows = map (\<lambda>(k, x). (the (map_of N k), k, x)) P"
    by (rule aggregate_report[OF wf ag, symmetric])
  show "write_rows N P [csv_header] =
           (None, csv_header # map (\<lambda>(n, k, x). csv_row n k x) (surface_report parse rows))"
    by (simp add: write_rows_ok[OF sub] r case_prod_beta comp_def)
  show "table_data N P = Inr (map (\<lambda>(n, k, x). table_row n k x) (surface_report parse rows))"
    by (simp add: table_data_ok[OF sub] r case_prod_beta comp_def)
qed

lemma write_outputs_wellformed:
  assumes "makedirs E (bept_cache_dir od) = None"
    and "open_csv E cp = Inr records"
    and wf: "\<forall>row \<in> set (DictReader records). wellformed (to_float E) row"
    and "open_write E (output_csv_file od pf) = None"
    and "open_write E (output_tabulated_file od pf) = None"
    and "tabulate E (map (\<lambda>(n, k, x). table_row n k x)
           (surface_report (to_float E) (DictReader records))) = Inr text"
  shows "write_outputs E pf cp od w =
     (None,
      write_file (output_tabulated_file od pf) (TabFile text)
        (write_file (output_csv_file od pf)
           (CsvFile (csv_header # map (\<lambda>(n, k, x). csv_row n k x)
              (surface_report (to_float E) (DictReader records)))) w))"
proof -
  obtain P N where ag: "aggregate (to_float E) (DictReader records) ([], []) = Inr (P, N)"
    using aggregate_succeeds[OF wf] by blast
  show ?thesis
    using assms(1,2,4,5,6) ag aggregate_writes[OF wf ag]
    by (simp add: write_outputs_def Let_def)
qed

lemma flag_false_written:
  assumes "fst (get_surface_resi E pf cp od w) = Inr (path, False)"
  shows "fst (write_outputs E pf cp od w) = None"
proof -
  from assms have "fst (try_body E pf cp od w) = None"
    by (auto simp: get_surface_resi_def split: prod.splits option.splits)
  then show ?thesis
    by (auto simp: try_body_def Let_def split: prod.splits option.splits)
qed

lemma surface_files:
  assumes wo: "fst (write_outputs E pf cp od w) = None"
    and rd: "open_csv E cp = Inr records"
    and wf: "\<forall>row \<in> set (DictReader records). wellformed (to_float E) row"
  shows "files (snd (get_surface_resi E pf cp od w)) (output_csv_file od pf) =
           Some (CsvFile (csv_header # map (\<lambda>(n, k, x). csv_row n k x)
              (surface_report (to_float E) (DictReader records))))"
    and "\<exists>text. tabulate E (map (\<lambda>(n, k, x). table_row n k x)
              (surface_report (to_float E) (DictReader records))) = Inr text \<and>
           files (snd (get_surface_resi E pf cp od w)) (output_tabulated_file od pf) =
             Some (TabFile text)"
proof -
  from write_outputs_None[OF wo] obtain records' P N rows table rendered where
    r: "open_csv E cp = Inr records'"
    and ag: "aggregate (to_float E) (DictReader records') ([], []) = Inr (P, N)"
    and wr: "write_rows N P [csv_header] = (None, rows)"
    and td: "table_data N P = Inr table"
    and tx: "tabulate E table = Inr rendered"
    and w': "snd (write_outputs E pf cp od w) =
             write_file (output_tabulated_file od pf) (TabFile rendered)
               (write_file (output_csv_file od pf) (CsvFile rows) w)"
    by blast
  from r rd have [simp]: "records' = records" by simp
  from aggregate_writes[OF wf] ag wr td
  have rows: "rows = csv_header # map (\<lambda>(n, k, x). csv_row n k x)
              (surface_report (to_float E) (DictReader records))"
    and table: "table = map (\<lambda>(n, k, x). table_row n k x)
              (surface_report (to_float E) (DictReader records))"
    by simp_all
  show "files (snd (get_surface_resi E pf cp od w)) (output_csv_file od pf) =
           Some (CsvFile (csv_header # map (\<lambda>(n, k, x). csv_row n k x)
              (surface_report (to_float E) (DictReader records))))"
    using output_paths_differ[of od pf od pf]
    by (simp add: files_get_surface_resi w' write_file_def rows)
  have "files (snd (get_surface_resi E pf cp od w)) (output_tabulated_file od pf) =
           Some (TabFile rendered)"
    by (simp add: files_get_surface_resi w' write_file_def)
  with tx table
  show "\<exists>text. tabulate E (map (\<lambda>(n, k, x). table_row n k x)
              (surface_report (to_float E) (DictReader records))) = Inr text \<and>
           files (snd (get_surface_resi E pf cp od w)) (output_tabulated_file od pf) =
             Some (TabFile text)"
    by blast
qed

lemma report_success_ok_env: "fst (report_success (ok_env records) pf w) = None"
  by (simp add: report_success_def print_def calc_sasa_def biop_fetch_def ok_env_def Let_def)

lemma report_success_no_pdb_env:
  "fst (report_success (no_pdb_env records) pf w) = Some (External ''No such file or directory'')"
  by (simp add: report_success_def print_def calc_sasa_def biop_fetch_def no_pdb_env_def
      ok_env_def Let_def)

lemma write_outputs_ok_env:
  assumes "\<forall>row \<in> set (DictReader records). wellformed float_of_string row"
  shows "fst (write_outputs (ok_env records) pf cp od w) = None"
    and "fst (write_outputs (no_pdb_env records) pf cp od w) = None"
proof -
  show "fst (write_outputs (ok_env records) pf cp od w) = None"
    by (subst write_outputs_wellformed[where records = records])
       (use assms in \<open>simp_all add: ok_env_def\<close>)
  show "fst (write_outputs (no_pdb_env records) pf cp od w) = None"
    by (subst write_outputs_wellformed[where records = records])
       (use assms in \<open>simp_all add: ok_env_def no_pdb_env_def\<close>)
qed

lemma run_ok_env:
  assumes "\<forall>row \<in> set (DictReader records). wellformed float_of_string row"
  shows "fst (get_surface_resi (ok_env records) pf cp od w) =
           Inr (output_tabulated_file od pf, False)"
proof -
  obtain w' where wo: "write_outputs (ok_env records) pf cp od w = (None, w')"
    using write_outputs_ok_env(1)[OF assms, of pf cp od w] by (metis prod.collapse)
  obtain w'' where rs: "report_success (ok_env records) pf w' = (None, w'')"
    using report_success_ok_env[of records pf w'] by (metis prod.collapse)
  show ?thesis by (simp add: get_surface_resi_def try_body_def wo rs)
qed

lemma demo_wellformed: "\<forall>row \<in> set (DictReader demo_records). wellformed float_of_string row"
  by (simp add: demo_records_def dict_row_def wellformed_def float_of_string_def strip_def
      is_space_def is_digit_def split_sign_def lower_def parse_decimal_def digits_value_def
      del: power_numeral)

subsection \<open>Rounding to binary64\<close>

text \<open>
  Rounding to 53 significant bits commutes with scaling by a power of two, so the
  arithmetic of integer-valued doubles can be done on the integers.
\<close>

declare bit_length.simps [simp del]

lemma bit_length_pos: "0 < n \<Longrightarrow> bit_length n = 1 + bit_length (n div 2)"
  by (subst bit_length.simps) simp

lemma bit_length_double: "0 < n \<Longrightarrow> bit_length (2 * n) = 1 + bit_length n"
  by (subst bit_length.simps) simp

lemma bit_length_scale: "0 < n \<Longrightarrow> bit_length (n * 2 ^ k) = bit_length n + int k"
proof (induction k)
  case 0
  then show ?case by simp
next
  case (Suc k)
  have pos: "0 < n * 2 ^ k" using Suc.prems by simp
  have "bit_length (n * 2 ^ Suc k) = bit_length (2 * (n * 2 ^ k))"
    by (simp add: mult.left_commute)
  also have "\<dots> = 1 + bit_length (n * 2 ^ k)" by (rule bit_length_double[OF pos])
  finally show ?case using Suc by simp
qed

lemma bit_length_nonneg: "0 \<le> bit_length n"
proof (induction n rule: bit_length.induct)
  case (1 n)
  then show ?case by (subst bit_length.simps) simp
qed

lemma bit_length_upper: "0 < n \<Longrightarrow> n < 2 ^ nat (bit_length n)"
proof (induction n rule: bit_length.induct)
  case (1 n)
  show ?case
  proof (cases "n = 1")
    case True
    have "bit_length 1 = 1" by (subst bit_length.simps, subst bit_length.simps) simp
    with True show ?thesis by simp
  next
    case False
    with 1(2) have h: "0 < n div 2" by simp
    from 1(1) 1(2) h have ih: "n div 2 < 2 ^ nat (bit_length (n div 2))" by simp
    have "nat (bit_length n) = Suc (nat (bit_length (n div 2)))"
      using bit_length_pos[OF 1(2)] bit_length_nonneg[of "n div 2"] by simp
    then show ?thesis using ih by simp
  qed
qed

lemma round_ratio_small: "0 < n \<Longrightarrow> bit_length n \<le> 53 \<Longrightarrow> round_ratio n 1 = n"
  by (simp add: round_ratio_def Let_def)

lemma round_ratio_exact:
  assumes "num mod (den * unit) = 0" and "0 < den * unit"
    and "unit = (if bit_length (num div den) \<le> 53 then 1 else 2 ^ nat (bit_length (num div den) - 53))"
  shows "round_ratio num den = num div (den * unit) * unit"
  using assms(1,2) unfolding round_ratio_def Let_def assms(3)[symmetric] by simp

lemma round_ratio_scale:
  assumes "0 < n"
  shows "round_ratio (n * 2 ^ k) 1 = round_ratio n 1 * 2 ^ k"
proof (cases "bit_length n \<le> 53")
  case small: True
  have bl: "bit_length (n * 2 ^ k) = bit_length n + int k"
    by (rule bit_length_scale[OF assms])
  show ?thesis
  proof (cases "bit_length n + int k \<le> 53")
    case True
    have "round_ratio (n * 2 ^ k) 1 = n * 2 ^ k div (1 * 1) * 1"
      by (rule round_ratio_exact) (simp_all add: bl True)
    then show ?thesis using assms small by (simp add: round_ratio_small)
  next
    case False
    define j where "j = nat (bit_length n + int k - 53)"
    from False small have jk: "j \<le> k" by (simp add: j_def)
    then have sp: "(2::int) ^ k = 2 ^ (k - j) * 2 ^ j"
      by (simp flip: power_add)
    have d: "n * 2 ^ k div (1 * 2 ^ j) = n * 2 ^ (k - j)"
      and m: "n * 2 ^ k mod (1 * 2 ^ j) = 0"
      unfolding sp by (simp_all flip: mult.assoc)
    have "round_ratio (n * 2 ^ k) 1 = n * 2 ^ k div (1 * 2 ^ j) * 2 ^ j"
      by (rule round_ratio_exact[OF m]) (simp_all add: bl False j_def)
    also have "\<dots> = n * 2 ^ k" unfolding d by (simp add: sp mult.assoc)
    finally show ?thesis using assms small by (simp add: round_ratio_small)
  qed
next
  case False
  define u :: int where "u = 2 ^ nat (bit_length n - 53)"
  have upos: "0 < u" by (simp add: u_def)
  have bl: "bit_length (n * 2 ^ k div 1) = bit_length n + int k"
    using bit_length_scale[OF assms] by simp
  have n1: "bit_length (n div 1) = bit_length n" by simp
  have "nat (bit_length n + int k - 53) = nat (bit_length n - 53) + k"
    using False by linarith
  then have u': "(2::int) ^ nat (bit_length n + int k - 53) = u * 2 ^ k"
    by (simp add: u_def power_add)
  have big: "\<not> bit_length n + int k \<le> 53" using False by linarith
  have d: "n * 2 ^ k div (1 * (u * 2 ^ k)) = n div u" by simp
  have m: "n * 2 ^ k mod (1 * (u * 2 ^ k)) = (n mod u) * 2 ^ k" by simp
  have c1: "2 * (n mod u * 2 ^ k) < 1 * (u * 2 ^ k) \<longleftrightarrow> 2 * (n mod u) < 1 * u"
    using mult_less_cancel_right_pos[of "2 ^ k" "2 * (n mod u)" u] by (simp add: mult.assoc)
  have c2: "1 * (u * 2 ^ k) < 2 * (n mod u * 2 ^ k) \<longleftrightarrow> 1 * u < 2 * (n mod u)"
    using mult_less_cancel_right_pos[of "2 ^ k" u "2 * (n mod u)"] by (simp add: mult.assoc)
  have l: "round_ratio (n * 2 ^ k) 1 =
      (if 2 * (n mod u) < 1 * u then n div u * (u * 2 ^ k)
       else if 1 * u < 2 * (n mod u) then (n div u + 1) * (u * 2 ^ k)
       else if even (n div u) then n div u * (u * 2 ^ k) else (n div u + 1) * (u * 2 ^ k))"
    unfolding round_ratio_def Let_def bl if_not_P[OF big] u' d m c1 c2 ..
  have r: "round_ratio n 1 =
      (if 2 * (n mod u) < 1 * u then n div u * u
       else if 1 * u < 2 * (n mod u) then (n div u + 1) * u
       else if even (n div u) then n div u * u else (n div u + 1) * u)"
    unfolding round_ratio_def Let_def n1 if_not_P[OF False] u_def[symmetric] by simp
  show ?thesis unfolding l r by (simp add: mult.assoc)
qed

lemma round_ratio_cancel:
  "0 < c \<Longrightarrow> round_ratio (c * num) (c * den) = round_ratio num den"
  by (simp add: round_ratio_def Let_def mult.assoc)

text \<open>The doubles of integers: conversion, addition, and the values used below.\<close>

lemma to_double_int:
  assumes "0 < m" and "round_ratio m 1 = r" and "0 < r" and "r < 2 ^ 1024"
  shows "to_double False (m * 2 ^ 1074) 1 = double_of_int r"
proof -
  have rr: "round_ratio (m * 2 ^ 1074) 1 = r * 2 ^ 1074"
    using round_ratio_scale[OF assms(1), of 1074] assms(2) by simp
  have "r * 2 ^ 1074 < 2 ^ 1024 * (2 ^ 1074 :: int)"
    using assms(4) by (rule mult_strict_right_mono) simp
  also have "(2 ^ 1024 * 2 ^ 1074 :: int) = 2 ^ 2098" by (simp flip: power_add)
  finally have lt: "\<not> 2 ^ 2098 \<le> r * (2 ^ 1074 :: int)" by simp
  have nz: "r * (2 ^ 1074 :: int) \<noteq> 0" using assms(3) by simp
  show ?thesis
    unfolding to_double_def Let_def rr double_of_int_def if_not_P[OF lt] if_not_P[OF nz]
    by simp
qed

lemma to_double_cancel:
  "0 < c \<Longrightarrow> to_double negative (c * num) (c * 1) = to_double negative num 1"
  unfolding to_double_def by (simp only: round_ratio_cancel)

lemma fadd_int:
  assumes "0 < a + b" and "round_ratio (a + b) 1 = r" and "0 < r" and "r < 2 ^ 1024"
  shows "fadd (double_of_int a) (double_of_int b) = double_of_int r"
proof -
  have s: "a * 2 ^ 1074 + b * 2 ^ 1074 = (a + b) * (2 ^ 1074 :: int)"
    by (simp add: distrib_right)
  have pos: "0 < (a + b) * (2 ^ 1074 :: int)" using assms(1) by simp
  then have c: "(a + b) * (2 ^ 1074 :: int) \<noteq> 0" "\<not> (a + b) * (2 ^ 1074 :: int) < 0"
    "\<bar>(a + b) * (2 ^ 1074 :: int)\<bar> = (a + b) * 2 ^ 1074"
    by simp_all
  show ?thesis
    unfolding double_of_int_def fadd.simps s if_not_P[OF c(1)] c(3)
    using c(2) to_double_int[OF assms] by (simp only: double_of_int_def)
qed

lemma bl54: "bit_length 10000000000000000 = 54" "bit_length 10000000000000001 = 54"
  "bit_length 10000000000000002 = 54" "bit_length 1 = 1" "bit_length 2 = 2"
  by (simp_all add: bit_length.simps)

lemma rr1: "round_ratio 10000000000000000 1 = 10000000000000000"
  by (simp add: round_ratio_def Let_def bl54)
lemma rr2: "round_ratio 10000000000000001 1 = 10000000000000000"
  by (simp add: round_ratio_def Let_def bl54)
lemma rr3: "round_ratio 10000000000000002 1 = 10000000000000002"
  by (simp add: round_ratio_def Let_def bl54)
lemma rr4: "round_ratio 1 1 = 1" "round_ratio 2 1 = 2"
  by (simp_all add: round_ratio_def Let_def bl54)

lemma small_lt: "(10000000000000000 :: int) < 2 ^ 1024" "(10000000000000002 :: int) < 2 ^ 1024"
  "(1 :: int) < 2 ^ 1024" "(2 :: int) < 2 ^ 1024"
  by simp_all

lemma fadd_values:
  "fadd (double_of_int 0) (double_of_int 10000000000000000) = double_of_int 10000000000000000"
  "fadd (double_of_int 10000000000000000) (double_of_int 1) = double_of_int 10000000000000000"
  "fadd (double_of_int 0) (double_of_int 1) = double_of_int 1"
  "fadd (double_of_int 1) (double_of_int 1) = double_of_int 2"
  "fadd (double_of_int 10000000000000000) (double_of_int 2) = double_of_int 10000000000000002"
  by (rule fadd_int; simp add: rr1 rr2 rr3 rr4 small_lt)+

lemma parse_1e16: "float_of_string ''1e16'' = Some (double_of_int 10000000000000000)"
proof -
  have "float_of_string ''1e16'' = Some (to_double False (1 * 10 ^ 16 * 2 ^ 1074) 1)"
    by (simp add: float_of_string_def strip_def is_space_def is_digit_def split_sign_def
        lower_def parse_decimal_def digits_value_def del: power_numeral)
  also have "(1 * 10 ^ 16 * 2 ^ 1074 :: int) = 10000000000000000 * 2 ^ 1074" by simp
  also have "to_double False (10000000000000000 * 2 ^ 1074) 1 = double_of_int 10000000000000000"
    by (rule to_double_int) (simp_all add: rr1 small_lt)
  finally show ?thesis .
qed

lemma parse_1: "float_of_string ''1.0'' = Some (double_of_int 1)"
proof -
  have "float_of_string ''1.0'' = Some (to_double False (10 * 2 ^ 1074) (10 ^ 1))"
    by (simp add: float_of_string_def strip_def is_space_def is_digit_def split_sign_def
        lower_def parse_decimal_def digits_value_def del: power_numeral)
  also have "to_double False (10 * 2 ^ 1074) (10 ^ 1) = to_double False (10 * (1 * 2 ^ 1074)) (10 * 1)"
    by simp
  also have "\<dots> = to_double False (1 * 2 ^ 1074) 1"
    by (rule to_double_cancel) simp
  also have "\<dots> = double_of_int 1"
    by (rule to_double_int) (simp_all add: rr4 small_lt)
  finally show ?thesis .
qed

section \<open>The identifier of the structure loader\<close>

lemma protein_id_of_eq:
  "protein_id_of f =
     (if endswith f ''.pdb'' \<and> (\<exists>c \<in> set (basename (without_pdb_suffix f)). c \<noteq> CHR ''.'')
      then without_pdb_suffix f else f)"
proof (cases "endswith f ''.pdb''")
  case False
  then show ?thesis by (simp add: protein_id_of_def)
next
  case True
  then obtain q where f: "f = q @ ''.pdb''" by (auto simp: endswith_def suffix_def)
  then have "without_pdb_suffix f = q" by (simp add: without_pdb_suffix_def)
  then show ?thesis using True f by (simp add: protein_id_of_def splitext_pdb)
qed

text \<open>
  C6, amended. The identifier \<^verbatim>\<open>biop_fetch\<close> returns is the file name without its
  trailing \<^verbatim>\<open>.pdb\<close> when the name ends in \<^verbatim>\<open>.pdb\<close> and the last path component has a
  character other than a dot before that suffix; in every other case (no such
  suffix, or a last component made of dots and \<^verbatim>\<open>pdb\<close> only, which \<^verbatim>\<open>splitext\<close> reads
  as a name without extension) it is the file name unchanged.
\<close>

theorem biop_fetch_identifier:
  assumes "biop_fetch E protein_file = Inr (struct, ident)"
  shows "ident =
     (if endswith protein_file ''.pdb'' \<and>
         (\<exists>c \<in> set (basename (without_pdb_suffix protein_file)). c \<noteq> CHR ''.'')
      then without_pdb_suffix protein_file else protein_file)"
proof -
  from assms have "ident = protein_id_of protein_file"
    by (auto simp: biop_fetch_def Let_def split: sum.splits)
  then show ?thesis by (simp only: protein_id_of_eq)
qed

lemma biop_fetch_ok_env:
  "biop_fetch (ok_env records) f = Inr (protein_id_of f, protein_id_of f)"
  by (simp add: biop_fetch_def ok_env_def Let_def)

text \<open>An ordinary structure file in a directory.\<close>

theorem biop_fetch_identifier_witness:
  "biop_fetch (ok_env []) ''data/1abc.pdb'' = Inr (''data/1abc'', ''data/1abc'')"
proof -
  have "protein_id_of ''data/1abc.pdb'' = ''data/1abc''"
    using biop_fetch_identifier[OF biop_fetch_ok_env[of "[]" "''data/1abc.pdb''"]]
    by (simp add: endswith_def suffix_to_prefix without_pdb_suffix_def basename_def rfind_def)
  then show ?thesis by (simp add: biop_fetch_ok_env)
qed

text \<open>
  C6 as stated fails on the file name \<^verbatim>\<open>.pdb\<close>: it ends in \<^verbatim>\<open>.pdb\<close>, removing the suffix
  leaves the empty string, and the identifier is \<^verbatim>\<open>.pdb\<close>.
\<close>

theorem biop_fetch_identifier_counterexample:
  "endswith ''.pdb'' ''.pdb'' \<and> without_pdb_suffix ''.pdb'' = [] \<and>
   biop_fetch (ok_env []) ''.pdb'' = Inr (''.pdb'', ''.pdb'')"
proof -
  have "protein_id_of ''.pdb'' = ''.pdb''"
    by (simp add: protein_id_of_def endswith_def splitext_def rfind_def)
  then show ?thesis
    by (simp add: biop_fetch_ok_env endswith_def without_pdb_suffix_def)
qed

section \<open>The return value\<close>

text \<open>
  C9. When \<^verbatim>\<open>get_surface_resi\<close> returns the error flag false, the path it returns
  is not empty, it is the join of the output directory with the protein file name
  followed by \<^verbatim>\<open>_surface_data.txt\<close>, and the text table has been written there.
\<close>

theorem success_path:
  assumes "fst (get_surface_resi E pf cp od w) = Inr (path, False)"
  shows "path \<noteq> [] \<and> path = join od (pf @ ''_surface_data.txt'') \<and>
         (\<exists>table. files (snd (get_surface_resi E pf cp od w)) path = Some (TabFile table))"
proof -
  from assms have tb: "fst (try_body E pf cp od w) = None"
    and p: "path = fst (snd (try_body E pf cp od w))"
    by (auto simp: get_surface_resi_def split: prod.splits option.splits)
  from tb have wo: "fst (write_outputs E pf cp od w) = None"
    by (auto simp: try_body_def Let_def split: prod.splits option.splits)
  with p have path: "path = output_tabulated_file od pf"
    by (auto simp: try_body_def Let_def split: prod.splits option.splits)
  from write_outputs_None[OF wo] obtain table w1 where
    "snd (write_outputs E pf cp od w) = write_file (output_tabulated_file od pf) (TabFile table) w1"
    by blast
  then have "files (snd (get_surface_resi E pf cp od w)) path = Some (TabFile table)"
    by (simp add: files_get_surface_resi path write_file_def)
  then show ?thesis
    using path output_tabulated_file_nonempty[of od pf] by (auto simp: output_tabulated_file_def)
qed

text \<open>
  A run in which everything succeeds.
\<close>

theorem success_path_witness:
  "fst (get_surface_resi (ok_env demo_records) ''1abc.pdb'' ''in.csv'' ''out'' empty_world) =
     Inr (''out/1abc.pdb_surface_data.txt'', False) \<and>
   (\<exists>table. files (snd (get_surface_resi (ok_env demo_records) ''1abc.pdb'' ''in.csv'' ''out''
       empty_world)) ''out/1abc.pdb_surface_data.txt'' = Some (TabFile table))"
proof -
  have run: "fst (get_surface_resi (ok_env demo_records) ''1abc.pdb'' ''in.csv'' ''out'' empty_world) =
     Inr (''out/1abc.pdb_surface_data.txt'', False)"
    by (simp add: run_ok_env[OF demo_wellformed] output_tabulated_file_def join_def
        startswith_def endswith_def suffix_to_prefix)
  from success_path[OF run] obtain table where
    "files (snd (get_surface_resi (ok_env demo_records) ''1abc.pdb'' ''in.csv'' ''out''
       empty_world)) ''out/1abc.pdb_surface_data.txt'' = Some (TabFile table)"
    by blast
  with run show ?thesis by blast
qed

section \<open>The error contract\<close>

text \<open>
  C1, amended. An exception raised inside the \<^verbatim>\<open>try\<close> statement is caught, and when
  its error line can be printed the function returns the error flag true; the
  first component is the empty string when the exception came before the text
  table was written, and the path of the text table when it came after (from the
  success line or from the SASA calculator). The flag is true only if an exception
  was caught.
\<close>

theorem error_contract:
  "(fst (try_body E pf cp od w) = Some e \<and> console_print E (ErrorMsg e) = None \<longrightarrow>
      fst (get_surface_resi E pf cp od w) =
        Inr (if fst (write_outputs E pf cp od w) = None then output_tabulated_file od pf else [],
             True)) \<and>
   (fst (get_surface_resi E pf cp od w) = Inr (path, True) \<longrightarrow>
      (\<exists>e'. fst (try_body E pf cp od w) = Some e'))"
  by (auto simp: get_surface_resi_def try_body_def print_def Let_def
      split: prod.splits option.splits)

lemma unparsable_aggregate:
  "aggregate float_of_string (DictReader unparsable_records) ([], []) = Inl (ValueError ''n/a'')"
  by (simp add: unparsable_records_def dict_row_def getitem_def py_float_def
      float_of_string_def strip_def is_space_def is_digit_def split_sign_def lower_def
      parse_decimal_def digits_value_def del: power_numeral)

lemma unparsable_write_outputs:
  "write_outputs (ok_env unparsable_records) pf cp od w = (Some (ValueError ''n/a''), w)"
  by (simp add: write_outputs_def unparsable_aggregate) (simp add: ok_env_def unparsable_aggregate)

text \<open>
  A potential that is no number: the exception comes before any file is written.
\<close>

theorem error_contract_witness:
  "fst (try_body (ok_env unparsable_records) ''1abc.pdb'' ''in.csv'' ''out'' empty_world) =
     Some (ValueError ''n/a'') \<and>
   console_print (ok_env unparsable_records) (ErrorMsg (ValueError ''n/a'')) = None \<and>
   fst (get_surface_resi (ok_env unparsable_records) ''1abc.pdb'' ''in.csv'' ''out'' empty_world) =
     Inr ([], True)"
proof -
  have tb: "fst (try_body (ok_env unparsable_records) ''1abc.pdb'' ''in.csv'' ''out'' empty_world) =
     Some (ValueError ''n/a'')"
    by (simp add: try_body_def unparsable_write_outputs)
  have pr: "console_print (ok_env unparsable_records) (ErrorMsg (ValueError ''n/a'')) = None"
    by (simp add: ok_env_def)
  from error_contract[of "ok_env unparsable_records" "''1abc.pdb''" "''in.csv''" "''out''"
      empty_world "ValueError ''n/a''"] tb pr
  show ?thesis by (simp add: unparsable_write_outputs)
qed

lemma run_no_pdb_env:
  assumes "\<forall>row \<in> set (DictReader records). wellformed float_of_string row"
  shows "fst (try_body (no_pdb_env records) pf cp od w) =
           Some (External ''No such file or directory'')"
    and "fst (get_surface_resi (no_pdb_env records) pf cp od w) =
           Inr (output_tabulated_file od pf, True)"
proof -
  obtain w' where wo: "write_outputs (no_pdb_env records) pf cp od w = (None, w')"
    using write_outputs_ok_env(2)[OF assms, of pf cp od w] by (metis prod.collapse)
  obtain w'' where rs: "report_success (no_pdb_env records) pf w' =
      (Some (External ''No such file or directory''), w'')"
    using report_success_no_pdb_env[of records pf w'] by (metis prod.collapse)
  show "fst (try_body (no_pdb_env records) pf cp od w) =
           Some (External ''No such file or directory'')"
    by (simp add: try_body_def wo rs)
  show "fst (get_surface_resi (no_pdb_env records) pf cp od w) =
           Inr (output_tabulated_file od pf, True)"
  proof -
    have "console_print (no_pdb_env records) m = None" for m
      by (simp add: no_pdb_env_def ok_env_def)
    then show ?thesis by (simp add: get_surface_resi_def try_body_def wo rs print_def)
  qed
qed

lemma out_path: "output_tabulated_file ''out'' ''1abc.pdb'' = ''out/1abc.pdb_surface_data.txt''"
  by (simp add: output_tabulated_file_def join_def startswith_def endswith_def suffix_to_prefix)

lemma markup_aggregate:
  "aggregate float_of_string (DictReader markup_records) ([], []) = Inl (ValueError ''[/]'')"
  by (simp add: markup_records_def dict_row_def getitem_def py_float_def
      float_of_string_def strip_def is_space_def is_digit_def split_sign_def lower_def
      parse_decimal_def digits_value_def del: power_numeral)

lemma markup_run:
  "fst (get_surface_resi markup_env pf cp od w) =
     Inl (External ''closing tag [/] has nothing to close'')"
proof -
  have "write_outputs markup_env pf cp od w = (Some (ValueError ''[/]''), w)"
    by (simp add: write_outputs_def markup_env_def ok_env_def markup_aggregate)
  then show ?thesis
    by (simp add: get_surface_resi_def try_body_def print_def) (simp add: markup_env_def)
qed

lemma markup_try_body:
  "fst (try_body markup_env pf cp od w) = Some (ValueError ''[/]'')"
  by (simp add: try_body_def write_outputs_def markup_env_def ok_env_def markup_aggregate)

text \<open>
  C1 as stated fails when the structure file is missing: both files are written,
  \<^verbatim>\<open>calc_sasa\<close> raises, the exception is caught, and the path returned with the flag
  is the path of the text table, not the empty string. It also fails when the
  console raises on the error line (the potential \<^verbatim>\<open>[/]\<close>): the exception of the loop
  is caught, the one of the handler reaches the caller, and no pair is returned.
\<close>

theorem error_contract_counterexample:
  "fst (try_body (no_pdb_env demo_records) ''1abc.pdb'' ''in.csv'' ''out'' empty_world) =
     Some (External ''No such file or directory'') \<and>
   fst (get_surface_resi (no_pdb_env demo_records) ''1abc.pdb'' ''in.csv'' ''out'' empty_world) =
     Inr (''out/1abc.pdb_surface_data.txt'', True) \<and>
   fst (try_body markup_env ''1abc.pdb'' ''in.csv'' ''out'' empty_world) =
     Some (ValueError ''[/]'') \<and>
   fst (get_surface_resi markup_env ''1abc.pdb'' ''in.csv'' ''out'' empty_world) =
     Inl (External ''closing tag [/] has nothing to close'')"
  by (simp add: run_no_pdb_env[OF demo_wellformed] out_path markup_run markup_try_body)

section \<open>Input without a usable potential\<close>

lemma fold_upd_other:
  "key \<notin> set (map fst kvs) \<Longrightarrow> fold (\<lambda>(k, v) d. d(k \<mapsto> f v)) kvs d key = d key"
  by (induction kvs arbitrary: d) auto

lemma fold_none_other:
  "key \<notin> set ks \<Longrightarrow> fold (\<lambda>k d. d(k \<mapsto> v)) ks d key = d key"
  by (induction ks arbitrary: d) auto

lemma dict_row_lacks: "name \<notin> set fieldnames \<Longrightarrow> dict_row fieldnames record name = None"
proof -
  assume n: "name \<notin> set fieldnames"
  then have a: "name \<notin> set (map fst (zip fieldnames record))"
    by (metis in_set_takeD map_fst_zip_take)
  from n have b: "name \<notin> set (drop (length record) fieldnames)"
    by (meson in_set_dropD)
  show ?thesis
    by (simp add: dict_row_def Let_def fold_upd_other[OF a] fold_none_other[OF b])
qed

lemma lacks_column_bad:
  assumes "lacks_column ''Potential'' records" and "row \<in> set (DictReader records)"
  shows "bad_potential parse row"
proof (cases records)
  case Nil
  with assms(2) show ?thesis by simp
next
  case (Cons fieldnames rest)
  with assms have "row ''Potential'' = None"
    by (auto simp: lacks_column_def dict_row_lacks)
  then show ?thesis by (simp add: bad_potential_def)
qed

lemma aggregate_bad:
  "\<exists>row \<in> set rows. bad_potential parse row \<Longrightarrow> \<exists>e. aggregate parse rows acc = Inl e"
proof (induction rows arbitrary: acc)
  case Nil
  then show ?case by simp
next
  case (Cons row rows)
  obtain P N where acc: "acc = (P, N)" by (cases acc)
  show ?case
  proof (cases "bad_potential parse row")
    case True
    then show ?thesis
      by (auto simp: acc getitem_def py_float_def bad_potential_def
          split: option.splits pyval.splits)
  next
    case False
    with Cons.prems have "\<exists>row \<in> set rows. bad_potential parse row" by auto
    from Cons.IH[OF this] show ?thesis
      by (auto simp: acc split: sum.splits)
  qed
qed

lemma write_outputs_early:
  assumes "open_csv E cp = Inr records"
    and "aggregate (to_float E) (DictReader records) ([], []) = Inl e"
  shows "\<exists>e'. write_outputs E pf cp od w = (Some e', w)"
  using assms by (auto simp: write_outputs_def split: option.splits)

lemma length_DictReader: "length (DictReader records) = length (data_records records)"
  by (cases records) (simp_all add: data_records_def)

text \<open>
  C7, amended. When the input file has no \<^verbatim>\<open>Potential\<close> column and at least one
  data row, or has a row whose \<^verbatim>\<open>Potential\<close> does not convert to a float, and the
  error line of the exception that this run raises can be printed,
  \<^verbatim>\<open>get_surface_resi\<close> does not raise: it returns the empty path and the error flag
  true.
\<close>

theorem bad_potential_flagged:
  assumes "open_csv E cp = Inr records"
    and "(lacks_column ''Potential'' records \<and> data_records records \<noteq> []) \<or>
         (\<exists>row \<in> set (DictReader records). bad_potential (to_float E) row)"
    and "\<forall>e. fst (try_body E pf cp od w) = Some e \<longrightarrow> console_print E (ErrorMsg e) = None"
  shows "fst (get_surface_resi E pf cp od w) = Inr ([], True)"
proof -
  have "\<exists>row \<in> set (DictReader records). bad_potential (to_float E) row"
  proof (cases "\<exists>row \<in> set (DictReader records). bad_potential (to_float E) row")
    case True
    then show ?thesis .
  next
    case False
    with assms(2) have l: "lacks_column ''Potential'' records" and d: "data_records records \<noteq> []"
      by auto
    from d have "DictReader records \<noteq> ([] :: (string \<rightharpoonup> 'a pyval) list)"
      using length_DictReader[of records] by (metis length_0_conv)
    then obtain row :: "string \<rightharpoonup> 'a pyval" where "row \<in> set (DictReader records)"
      by (meson last_in_set)
    with l show ?thesis using lacks_column_bad by blast
  qed
  from aggregate_bad[OF this] obtain e where
    "aggregate (to_float E) (DictReader records) ([], []) = Inl e" by blast
  from write_outputs_early[OF assms(1) this] obtain e' where
    "write_outputs E pf cp od w = (Some e', w)" by blast
  then have t: "try_body E pf cp od w = (Some e', [], w)"
    by (simp add: try_body_def)
  with assms(3) have "console_print E (ErrorMsg e') = None" by simp
  with t show ?thesis
    by (simp add: get_surface_resi_def print_def)
qed

text \<open>
  A file without the column, with one data row: the run raises \<^verbatim>\<open>KeyError\<close>, and the
  console prints its line.
\<close>

theorem bad_potential_flagged_witness:
  "open_csv (ok_env no_potential_records) ''in.csv'' = Inr no_potential_records \<and>
   lacks_column ''Potential'' no_potential_records \<and>
   data_records no_potential_records = [[''ALA'', ''12'']] \<and>
   fst (try_body (ok_env no_potential_records) ''1abc.pdb'' ''in.csv'' ''out'' empty_world) =
     Some (KeyError ''Potential'') \<and>
   console_print (ok_env no_potential_records) (ErrorMsg (KeyError ''Potential'')) = None \<and>
   fst (get_surface_resi (ok_env no_potential_records) ''1abc.pdb'' ''in.csv'' ''out'' empty_world) =
     Inr ([], True)"
proof -
  have a: "open_csv (ok_env no_potential_records) ''in.csv'' = Inr no_potential_records"
    by (simp add: ok_env_def)
  have b: "lacks_column ''Potential'' no_potential_records"
    by (simp add: lacks_column_def no_potential_records_def)
  have c: "data_records no_potential_records = [[''ALA'', ''12'']]"
    by (simp add: no_potential_records_def data_records_def)
  have t: "fst (try_body (ok_env no_potential_records) ''1abc.pdb'' ''in.csv'' ''out''
      empty_world) = Some (KeyError ''Potential'')"
    by (simp add: try_body_def write_outputs_def ok_env_def no_potential_records_def
        dict_row_def getitem_def)
  have p: "console_print (ok_env no_potential_records) (ErrorMsg (KeyError ''Potential'')) = None"
    by (simp add: ok_env_def)
  have e: "\<forall>e. fst (try_body (ok_env no_potential_records) ''1abc.pdb'' ''in.csv'' ''out''
      empty_world) = Some e \<longrightarrow> console_print (ok_env no_potential_records) (ErrorMsg e) = None"
    using p by (simp add: t)
  have "fst (get_surface_resi (ok_env no_potential_records) ''1abc.pdb'' ''in.csv'' ''out''
      empty_world) = Inr ([], True)"
    by (rule bad_potential_flagged[OF a _ e]) (simp add: b c)
  with a b c t p show ?thesis by blast
qed

lemma header_only_wellformed:
  "\<forall>row \<in> set (DictReader header_only_records). wellformed float_of_string row"
  by (simp add: header_only_records_def)

text \<open>
  C7 as stated fails twice. A file that lacks the column and has no data row is
  aggregated without any exception: the flag is false and the path is not empty.
  And when the console raises on the error line (the potential \<^verbatim>\<open>[/]\<close>), that
  exception leaves the handler and reaches the caller.
\<close>

theorem bad_potential_flagged_counterexample:
  "lacks_column ''Potential'' header_only_records \<and>
   fst (get_surface_resi (ok_env header_only_records) ''1abc.pdb'' ''in.csv'' ''out'' empty_world) =
     Inr (''out/1abc.pdb_surface_data.txt'', False) \<and>
   open_csv markup_env ''in.csv'' = Inr markup_records \<and>
   float_of_string ''[/]'' = None \<and>
   fst (get_surface_resi markup_env ''1abc.pdb'' ''in.csv'' ''out'' empty_world) =
     Inl (External ''closing tag [/] has nothing to close'')"
proof -
  have a: "lacks_column ''Potential'' header_only_records"
    by (simp add: lacks_column_def header_only_records_def)
  have b: "fst (get_surface_resi (ok_env header_only_records) ''1abc.pdb'' ''in.csv'' ''out''
      empty_world) = Inr (''out/1abc.pdb_surface_data.txt'', False)"
    by (simp only: run_ok_env[OF header_only_wellformed] out_path)
  have c: "open_csv markup_env ''in.csv'' = Inr markup_records"
    by (simp add: markup_env_def ok_env_def)
  have d: "float_of_string ''[/]'' = None"
    by (simp add: float_of_string_def strip_def is_space_def is_digit_def split_sign_def
        lower_def parse_decimal_def)
  from a b c d markup_run[of "''1abc.pdb''" "''in.csv''" "''out''" empty_world]
  show ?thesis by blast
qed

section \<open>No cleanup\<close>

text \<open>
  C8. Once the output CSV file has been written (the directory was made, the
  input was read and aggregated, the file was opened), it stays on disk with the
  rows the writer gave it, whatever happens afterwards: an exception raised while
  the text table is written, by the success line or by the SASA calculator is
  handled without any cleanup.
\<close>

theorem csv_remains:
  assumes "makedirs E (bept_cache_dir od) = None"
    and "open_csv E cp = Inr records"
    and "aggregate (to_float E) (DictReader records) ([], []) = Inr (P, N)"
    and "open_write E (output_csv_file od pf) = None"
  shows "files (snd (get_surface_resi E pf cp od w)) (output_csv_file od pf) =
           Some (CsvFile (snd (write_rows N P [csv_header])))"
  by (simp only: files_get_surface_resi write_outputs_csv_written[OF assms])

text \<open>
  The structure file is missing: the flag is true and the CSV file is there.
\<close>

theorem csv_remains_witness:
  "fst (get_surface_resi (no_pdb_env demo_records) ''1abc.pdb'' ''in.csv'' ''out'' empty_world) =
     Inr (''out/1abc.pdb_surface_data.txt'', True) \<and>
   (\<exists>P N. aggregate float_of_string (DictReader demo_records) ([], []) = Inr (P, N) \<and>
      files (snd (get_surface_resi (no_pdb_env demo_records) ''1abc.pdb'' ''in.csv'' ''out''
        empty_world)) (output_csv_file ''out'' ''1abc.pdb'') =
      Some (CsvFile (snd (write_rows N P [csv_header]))))"
proof -
  obtain P N where ag: "aggregate float_of_string (DictReader demo_records) ([], []) = Inr (P, N)"
    using aggregate_succeeds[OF demo_wellformed] by blast
  have "files (snd (get_surface_resi (no_pdb_env demo_records) ''1abc.pdb'' ''in.csv'' ''out''
        empty_world)) (output_csv_file ''out'' ''1abc.pdb'') =
      Some (CsvFile (snd (write_rows N P [csv_header])))"
    by (rule csv_remains[where records = demo_records])
       (simp_all add: no_pdb_env_def ok_env_def ag)
  with ag show ?thesis
    by (simp add: run_no_pdb_env(2)[OF demo_wellformed] out_path)
qed

section \<open>Only three columns are read\<close>




section \<open>The report\<close>

text \<open>
  The theorems of this section spell the written rows out: the header is
  \<open>[Resi, Resi_Seq, Resi_Potential]\<close>, a data row is \<open>[name, key, potential]\<close>, and a row
  of the table handed to \<^verbatim>\<open>tabulate\<close> is the dictionary of the same three values.
\<close>

lemma report_keys:
  "map (\<lambda>(n, k, x). k) (surface_report parse rows) = first_seen (map Resi_Seq_of rows)"
  by (simp add: surface_report_def comp_def)

lemma csv_layout:
  "csv_header # map (\<lambda>(n, k, x). csv_row n k x) report =
   [Str ''Resi'', Str ''Resi_Seq'', Str ''Resi_Potential''] # map (\<lambda>(n, k, x). [n, k, Float x]) report"
  by (simp add: csv_header_def csv_row_def)

lemma table_layout:
  "map (\<lambda>(n, k, x). table_row n k x) report =
   map (\<lambda>(n, k, x). [(''Resi'', n), (''Resi_Seq'', k), (''Resi_Potential'', Float x)]) report"
  by (simp add: table_row_def)

lemma written_csv:
  assumes "fst (write_outputs E pf cp od w) = None"
    and "open_csv E cp = Inr records"
    and "\<forall>row \<in> set (DictReader records). wellformed (to_float E) row"
  shows "files (snd (get_surface_resi E pf cp od w)) (output_csv_file od pf) =
           Some (CsvFile ([Str ''Resi'', Str ''Resi_Seq'', Str ''Resi_Potential''] #
             map (\<lambda>(n, k, x). [n, k, Float x])
               (surface_report (to_float E) (DictReader records))))"
  using surface_files(1)[OF assms] by (simp only: csv_layout)

lemma written_csv_by_key:
  assumes "fst (write_outputs E pf cp od w) = None"
    and "open_csv E cp = Inr records"
    and "\<forall>row \<in> set (DictReader records). wellformed (to_float E) row"
  shows "files (snd (get_surface_resi E pf cp od w)) (output_csv_file od pf) =
           Some (CsvFile ([Str ''Resi'', Str ''Resi_Seq'', Str ''Resi_Potential''] #
             map (\<lambda>k. [Resi_of (last (rows_of k (DictReader records))), k,
                        Float (foldl (+) 0 (map (Potential_of (to_float E))
                          (rows_of k (DictReader records))))])
               (first_seen (map Resi_Seq_of (DictReader records)))))"
  using written_csv[OF assms] by (simp add: surface_report_def comp_def)

lemma demo_keys:
  "map Resi_Seq_of (DictReader demo_records :: (string \<rightharpoonup> pyfloat pyval) list) =
     [Str ''12'', Str ''13'', Str ''12'']"
  by (simp add: demo_records_def dict_row_def Resi_Seq_of_def)

lemma demo_first_seen:
  "first_seen (map Resi_Seq_of (DictReader demo_records :: (string \<rightharpoonup> pyfloat pyval) list)) =
     [Str ''12'', Str ''13'']"
  by (simp add: demo_keys)

lemma demo_run:
  "fst (get_surface_resi (ok_env demo_records) ''1abc.pdb'' ''in.csv'' ''out'' empty_world) =
     Inr (''out/1abc.pdb_surface_data.txt'', False)"
  by (simp only: run_ok_env[OF demo_wellformed] out_path)

lemma demo_written:
  "fst (write_outputs (ok_env demo_records) ''1abc.pdb'' ''in.csv'' ''out'' empty_world) = None"
  by (rule write_outputs_ok_env(1)[OF demo_wellformed])

lemma demo_open: "open_csv (ok_env demo_records) ''in.csv'' = Inr demo_records"
  by (simp add: ok_env_def)

lemma demo_wellformed_env:
  "\<forall>row \<in> set (DictReader demo_records). wellformed (to_float (ok_env demo_records)) row"
  using demo_wellformed by (simp add: ok_env_def)

lemma demo_list_all: "list_all (wellformed float_of_string) (DictReader demo_records)"
  using demo_wellformed by (simp add: list_all_iff)

lemma demo_names:
  "Resi_of (last (rows_of (Str ''12'') (DictReader demo_records :: (string \<rightharpoonup> pyfloat pyval) list))) =
     Str ''VAL''"
  "Resi_of (last (rows_of (Str ''13'') (DictReader demo_records :: (string \<rightharpoonup> pyfloat pyval) list))) =
     Str ''GLY''"
  by (simp_all add: demo_records_def dict_row_def Resi_Seq_of_def Resi_of_def rows_of_def)

text \<open>
  C3. For a well-formed input, whenever the two output files are written (lines 56
  to 100 raise nothing, as in every run that returns the flag false), the output
  CSV holds the header and rows \<open>[name, key, potential]\<close> whose keys are exactly the
  \<^verbatim>\<open>Resi_Seq\<close> values of the input, each of them once.
\<close>

theorem output_keys:
  assumes "fst (write_outputs E pf cp od w) = None"
    and "open_csv E cp = Inr records"
    and "\<forall>row \<in> set (DictReader records). wellformed (to_float E) row"
  shows "\<exists>report.
           files (snd (get_surface_resi E pf cp od w)) (output_csv_file od pf) =
             Some (CsvFile ([Str ''Resi'', Str ''Resi_Seq'', Str ''Resi_Potential''] #
               map (\<lambda>(n, k, x). [n, k, Float x]) report)) \<and>
           set (map (\<lambda>(n, k, x). k) report) = set (map Resi_Seq_of (DictReader records)) \<and>
           distinct (map (\<lambda>(n, k, x). k) report)"
proof (intro exI conjI)
  show "files (snd (get_surface_resi E pf cp od w)) (output_csv_file od pf) =
          Some (CsvFile ([Str ''Resi'', Str ''Resi_Seq'', Str ''Resi_Potential''] #
            map (\<lambda>(n, k, x). [n, k, Float x])
              (surface_report (to_float E) (DictReader records))))"
    by (rule written_csv[OF assms])
  show "set (map (\<lambda>(n, k, x). k) (surface_report (to_float E) (DictReader records))) =
          set (map Resi_Seq_of (DictReader records))"
    by (simp only: report_keys set_first_seen)
  show "distinct (map (\<lambda>(n, k, x). k) (surface_report (to_float E) (DictReader records)))"
    by (simp only: report_keys distinct_first_seen)
qed

text \<open>Three data rows with the keys \<^verbatim>\<open>12\<close>, \<^verbatim>\<open>13\<close>, \<^verbatim>\<open>12\<close>.\<close>

theorem output_keys_witness:
  "fst (write_outputs (ok_env demo_records) ''1abc.pdb'' ''in.csv'' ''out'' empty_world) = None \<and>
   open_csv (ok_env demo_records) ''in.csv'' = Inr demo_records \<and>
   list_all (wellformed float_of_string) (DictReader demo_records) \<and>
   (\<exists>report.
      files (snd (get_surface_resi (ok_env demo_records) ''1abc.pdb'' ''in.csv'' ''out''
        empty_world)) (output_csv_file ''out'' ''1abc.pdb'') =
        Some (CsvFile ([Str ''Resi'', Str ''Resi_Seq'', Str ''Resi_Potential''] #
          map (\<lambda>(n, k, x). [n, k, Float x]) report)) \<and>
      set (map (\<lambda>(n, k, x). k) report) = {Str ''12'', Str ''13''} \<and>
      distinct (map (\<lambda>(n, k, x). k) report))"
proof -
  have "set (map Resi_Seq_of (DictReader demo_records :: (string \<rightharpoonup> pyfloat pyval) list)) =
          {Str ''12'', Str ''13''}"
    by (auto simp: demo_keys)
  with output_keys[OF demo_written demo_open demo_wellformed_env] demo_written demo_open
    demo_list_all
  show ?thesis by simp
qed

text \<open>
  C4. For a well-formed input, whenever the output files are written, the output
  CSV has one row for each distinct key of the input, and the name in the row of a
  key is the \<^verbatim>\<open>Resi\<close> of the last input row with that key.
\<close>

theorem last_name_wins:
  assumes "fst (write_outputs E pf cp od w) = None"
    and "open_csv E cp = Inr records"
    and "\<forall>row \<in> set (DictReader records). wellformed (to_float E) row"
  shows "\<exists>potential.
           files (snd (get_surface_resi E pf cp od w)) (output_csv_file od pf) =
             Some (CsvFile ([Str ''Resi'', Str ''Resi_Seq'', Str ''Resi_Potential''] #
               map (\<lambda>k. [Resi_of (last (rows_of k (DictReader records))), k,
                          Float (potential k)])
                 (first_seen (map Resi_Seq_of (DictReader records)))))"
  using written_csv_by_key[OF assms]
  by (rule exI[of _ "\<lambda>k. foldl (+) 0 (map (Potential_of (to_float E))
    (rows_of k (DictReader records)))"])

text \<open>
  The key \<^verbatim>\<open>12\<close> has the names \<^verbatim>\<open>ALA\<close> and then \<^verbatim>\<open>VAL\<close>: its row is written with
  \<^verbatim>\<open>VAL\<close>.
\<close>

theorem last_name_wins_witness:
  "fst (write_outputs (ok_env demo_records) ''1abc.pdb'' ''in.csv'' ''out'' empty_world) = None \<and>
   open_csv (ok_env demo_records) ''in.csv'' = Inr demo_records \<and>
   list_all (wellformed float_of_string) (DictReader demo_records) \<and>
   map Resi_of (rows_of (Str ''12'') (DictReader demo_records :: (string \<rightharpoonup> pyfloat pyval) list)) =
     [Str ''ALA'', Str ''VAL''] \<and>
   (\<exists>x y.
      files (snd (get_surface_resi (ok_env demo_records) ''1abc.pdb'' ''in.csv'' ''out''
        empty_world)) (output_csv_file ''out'' ''1abc.pdb'') =
        Some (CsvFile [[Str ''Resi'', Str ''Resi_Seq'', Str ''Resi_Potential''],
          [Str ''VAL'', Str ''12'', Float x],
          [Str ''GLY'', Str ''13'', Float y]]))"
proof -
  have two: "map Resi_of (rows_of (Str ''12'')
      (DictReader demo_records :: (string \<rightharpoonup> pyfloat pyval) list)) = [Str ''ALA'', Str ''VAL'']"
    by (simp add: demo_records_def dict_row_def Resi_Seq_of_def Resi_of_def rows_of_def)
  from last_name_wins[OF demo_written demo_open demo_wellformed_env] obtain potential where
    "files (snd (get_surface_resi (ok_env demo_records) ''1abc.pdb'' ''in.csv'' ''out''
        empty_world)) (output_csv_file ''out'' ''1abc.pdb'') =
      Some (CsvFile ([Str ''Resi'', Str ''Resi_Seq'', Str ''Resi_Potential''] #
        map (\<lambda>k. [Resi_of (last (rows_of k (DictReader demo_records))), k, Float (potential k)])
          (first_seen (map Resi_Seq_of (DictReader demo_records)))))"
    by blast
  then have "files (snd (get_surface_resi (ok_env demo_records) ''1abc.pdb'' ''in.csv'' ''out''
        empty_world)) (output_csv_file ''out'' ''1abc.pdb'') =
      Some (CsvFile [[Str ''Resi'', Str ''Resi_Seq'', Str ''Resi_Potential''],
        [Str ''VAL'', Str ''12'', Float (potential (Str ''12''))],
        [Str ''GLY'', Str ''13'', Float (potential (Str ''13''))]])"
    by (simp add: demo_first_seen demo_names)
  with demo_written demo_open demo_list_all two show ?thesis by blast
qed

text \<open>
  C5, amended. For a well-formed input, whenever the output files are written, the
  output CSV has one row for each distinct key, in the order in which the keys
  first occur in the input, and the text file holds the text \<^verbatim>\<open>tabulate\<close> returns for
  the table of the same rows (the same name, key and potential) in the same order.
\<close>

theorem output_order:
  assumes "fst (write_outputs E pf cp od w) = None"
    and "open_csv E cp = Inr records"
    and "\<forall>row \<in> set (DictReader records). wellformed (to_float E) row"
  shows "\<exists>report rendered.
           files (snd (get_surface_resi E pf cp od w)) (output_csv_file od pf) =
             Some (CsvFile ([Str ''Resi'', Str ''Resi_Seq'', Str ''Resi_Potential''] #
               map (\<lambda>(n, k, x). [n, k, Float x]) report)) \<and>
           map (\<lambda>(n, k, x). k) report = first_seen (map Resi_Seq_of (DictReader records)) \<and>
           tabulate E
             (map (\<lambda>(n, k, x). [(''Resi'', n), (''Resi_Seq'', k), (''Resi_Potential'', Float x)])
                report) = Inr rendered \<and>
           files (snd (get_surface_resi E pf cp od w)) (output_tabulated_file od pf) =
             Some (TabFile rendered)"
proof -
  from surface_files(2)[OF assms] obtain rendered where
    "tabulate E
       (map (\<lambda>(n, k, x). [(''Resi'', n), (''Resi_Seq'', k), (''Resi_Potential'', Float x)])
          (surface_report (to_float E) (DictReader records))) = Inr rendered"
    and "files (snd (get_surface_resi E pf cp od w)) (output_tabulated_file od pf) =
           Some (TabFile rendered)"
    unfolding table_layout by blast
  with written_csv[OF assms] report_keys[of "to_float E" "DictReader records"]
  show ?thesis by blast
qed

text \<open>
  The keys \<^verbatim>\<open>12\<close>, \<^verbatim>\<open>13\<close>, \<^verbatim>\<open>12\<close> give the rows of \<^verbatim>\<open>12\<close> and \<^verbatim>\<open>13\<close>, in the CSV and in the
  table.
\<close>

theorem output_order_witness:
  "fst (write_outputs (ok_env demo_records) ''1abc.pdb'' ''in.csv'' ''out'' empty_world) = None \<and>
   open_csv (ok_env demo_records) ''in.csv'' = Inr demo_records \<and>
   list_all (wellformed float_of_string) (DictReader demo_records) \<and>
   map Resi_Seq_of (DictReader demo_records :: (string \<rightharpoonup> pyfloat pyval) list) =
     [Str ''12'', Str ''13'', Str ''12''] \<and>
   (\<exists>n1 x1 n2 x2.
      files (snd (get_surface_resi (ok_env demo_records) ''1abc.pdb'' ''in.csv'' ''out''
        empty_world)) (output_csv_file ''out'' ''1abc.pdb'') =
        Some (CsvFile [[Str ''Resi'', Str ''Resi_Seq'', Str ''Resi_Potential''],
          [n1, Str ''12'', Float x1],
          [n2, Str ''13'', Float x2]]) \<and>
      files (snd (get_surface_resi (ok_env demo_records) ''1abc.pdb'' ''in.csv'' ''out''
        empty_world)) ''out/1abc.pdb_surface_data.txt'' =
        Some (TabFile
          [[(''Resi'', n1), (''Resi_Seq'', Str ''12''), (''Resi_Potential'', Float x1)],
           [(''Resi'', n2), (''Resi_Seq'', Str ''13''), (''Resi_Potential'', Float x2)]]))"
proof -
  from output_order[OF demo_written demo_open demo_wellformed_env] obtain report rendered where
    c: "files (snd (get_surface_resi (ok_env demo_records) ''1abc.pdb'' ''in.csv'' ''out''
        empty_world)) (output_csv_file ''out'' ''1abc.pdb'') =
        Some (CsvFile ([Str ''Resi'', Str ''Resi_Seq'', Str ''Resi_Potential''] #
          map (\<lambda>(n, k, x). [n, k, Float x]) report))"
    and k: "map (\<lambda>(n, k, x). k) report = [Str ''12'', Str ''13'']"
    and t: "tabulate (ok_env demo_records)
        (map (\<lambda>(n, k, x). [(''Resi'', n), (''Resi_Seq'', k), (''Resi_Potential'', Float x)])
           report) = Inr rendered"
    and f: "files (snd (get_surface_resi (ok_env demo_records) ''1abc.pdb'' ''in.csv'' ''out''
        empty_world)) (output_tabulated_file ''out'' ''1abc.pdb'') = Some (TabFile rendered)"
    unfolding demo_first_seen by (elim exE conjE) (rule that)
  from k obtain n1 x1 n2 x2 where r: "report = [(n1, Str ''12'', x1), (n2, Str ''13'', x2)]"
    by (auto simp: map_eq_Cons_conv)
  from t have "rendered =
      map (\<lambda>(n, k, x). [(''Resi'', n), (''Resi_Seq'', k), (''Resi_Potential'', Float x)]) report"
    by (simp add: ok_env_def)
  with c f r demo_written demo_open demo_list_all demo_keys show ?thesis
    by (simp add: out_path)
qed

lemma bit_length_million: "bit_length 1000000 = 20" "bit_length 1000001 = 20"
  by (simp_all add: bit_length.simps)

lemma round_million: "round_ratio 1000000 1 = 1000000" "round_ratio 1000001 1 = 1000001"
  by (simp_all add: round_ratio_small bit_length_million)

lemma parse_million:
  "float_of_string ''1000000'' = Some (double_of_int 1000000)"
  "float_of_string ''1000001'' = Some (double_of_int 1000001)"
proof -
  have "float_of_string ''1000000'' = Some (to_double False (1000000 * 2 ^ 1074) 1)"
    by (simp add: float_of_string_def strip_def is_space_def is_digit_def split_sign_def
        lower_def parse_decimal_def digits_value_def del: power_numeral)
  also have "to_double False (1000000 * 2 ^ 1074) 1 = double_of_int 1000000"
    by (rule to_double_int) (simp_all add: round_million)
  finally show "float_of_string ''1000000'' = Some (double_of_int 1000000)" .
  have "float_of_string ''1000001'' = Some (to_double False (1000001 * 2 ^ 1074) 1)"
    by (simp add: float_of_string_def strip_def is_space_def is_digit_def split_sign_def
        lower_def parse_decimal_def digits_value_def del: power_numeral)
  also have "to_double False (1000001 * 2 ^ 1074) 1 = double_of_int 1000001"
    by (rule to_double_int) (simp_all add: round_million)
  finally show "float_of_string ''1000001'' = Some (double_of_int 1000001)" .
qed

lemma fadd_million:
  "fadd (double_of_int 0) (double_of_int 1000000) = double_of_int 1000000"
  "fadd (double_of_int 0) (double_of_int 1000001) = double_of_int 1000001"
  by (rule fadd_int; simp add: round_million)+

lemma zero_double: "(0 :: pyfloat) = double_of_int 0"
  by (simp add: zero_pyfloat_def double_of_int_def)

lemma million_wellformed:
  "\<forall>row \<in> set (DictReader million_records). wellformed float_of_string row"
  "\<forall>row \<in> set (DictReader million_one_records). wellformed float_of_string row"
  by (simp_all add: million_records_def million_one_records_def dict_row_def wellformed_def
      parse_million)

lemma million_report:
  "surface_report float_of_string (DictReader million_records) =
     [(Str ''ALA'', Str ''1'', double_of_int 1000000)]"
  "surface_report float_of_string (DictReader million_one_records) =
     [(Str ''ALA'', Str ''1'', double_of_int 1000001)]"
  by (simp_all add: surface_report_def rows_of_def million_records_def million_one_records_def
      dict_row_def Resi_of_def Resi_Seq_of_def Potential_of_def parse_million zero_double
      plus_pyfloat_def fadd_million)

lemma format_env_written:
  "fst (write_outputs format_env pf ''a.csv'' od w) = None"
  "fst (write_outputs format_env pf ''b.csv'' od w) = None"
proof -
  show "fst (write_outputs format_env pf ''a.csv'' od w) = None"
    by (subst write_outputs_wellformed[where records = million_records])
       (use million_wellformed in \<open>simp_all add: format_env_def\<close>)
  show "fst (write_outputs format_env pf ''b.csv'' od w) = None"
    by (subst write_outputs_wellformed[where records = million_one_records])
       (use million_wellformed in \<open>simp_all add: format_env_def\<close>)
qed

text \<open>
  C5 as stated fails on what the text table contains. Two inputs with the
  potentials \<open>1000000\<close> and \<open>1000001\<close> give two different CSV files and the same text
  table, in which the potential reads \<^verbatim>\<open>1e+06\<close>: \<^verbatim>\<open>tabulate\<close> formats the values its own
  way, so the table cannot hold exactly the rows of the CSV in both runs.
\<close>

theorem output_order_counterexample:
  "files (snd (get_surface_resi format_env ''1abc.pdb'' ''a.csv'' ''out'' empty_world))
     (output_csv_file ''out'' ''1abc.pdb'') =
     Some (CsvFile [[Str ''Resi'', Str ''Resi_Seq'', Str ''Resi_Potential''],
       [Str ''ALA'', Str ''1'', Float (double_of_int 1000000)]]) \<and>
   files (snd (get_surface_resi format_env ''1abc.pdb'' ''b.csv'' ''out'' empty_world))
     (output_csv_file ''out'' ''1abc.pdb'') =
     Some (CsvFile [[Str ''Resi'', Str ''Resi_Seq'', Str ''Resi_Potential''],
       [Str ''ALA'', Str ''1'', Float (double_of_int 1000001)]]) \<and>
   double_of_int 1000000 \<noteq> double_of_int 1000001 \<and>
   files (snd (get_surface_resi format_env ''1abc.pdb'' ''a.csv'' ''out'' empty_world))
     ''out/1abc.pdb_surface_data.txt'' =
     Some (TabFile [[''Resi'', ''Resi_Seq'', ''Resi_Potential''], [''ALA'', ''1'', ''1e+06'']]) \<and>
   files (snd (get_surface_resi format_env ''1abc.pdb'' ''b.csv'' ''out'' empty_world))
     ''out/1abc.pdb_surface_data.txt'' =
     Some (TabFile [[''Resi'', ''Resi_Seq'', ''Resi_Potential''], [''ALA'', ''1'', ''1e+06'']])"
proof -
  have oa: "open_csv format_env ''a.csv'' = Inr million_records"
    and ob: "open_csv format_env ''b.csv'' = Inr million_one_records"
    and tf: "to_float format_env = float_of_string"
    and tb: "tabulate format_env table =
      Inr [[''Resi'', ''Resi_Seq'', ''Resi_Potential''], [''ALA'', ''1'', ''1e+06'']]" for table
    by (simp_all add: format_env_def)
  have wa: "\<forall>row \<in> set (DictReader million_records). wellformed (to_float format_env) row"
    and wb: "\<forall>row \<in> set (DictReader million_one_records). wellformed (to_float format_env) row"
    using million_wellformed by (simp_all add: tf)
  have ca: "files (snd (get_surface_resi format_env ''1abc.pdb'' ''a.csv'' ''out'' empty_world))
     (output_csv_file ''out'' ''1abc.pdb'') =
     Some (CsvFile [[Str ''Resi'', Str ''Resi_Seq'', Str ''Resi_Potential''],
       [Str ''ALA'', Str ''1'', Float (double_of_int 1000000)]])"
    using written_csv[OF format_env_written(1) oa wa] by (simp add: tf million_report)
  have cb: "files (snd (get_surface_resi format_env ''1abc.pdb'' ''b.csv'' ''out'' empty_world))
     (output_csv_file ''out'' ''1abc.pdb'') =
     Some (CsvFile [[Str ''Resi'', Str ''Resi_Seq'', Str ''Resi_Potential''],
       [Str ''ALA'', Str ''1'', Float (double_of_int 1000001)]])"
    using written_csv[OF format_env_written(2) ob wb] by (simp add: tf million_report)
  have ne: "double_of_int 1000000 \<noteq> double_of_int 1000001"
    by (simp add: double_of_int_def)
  have ta: "files (snd (get_surface_resi format_env ''1abc.pdb'' ''a.csv'' ''out'' empty_world))
     ''out/1abc.pdb_surface_data.txt'' =
     Some (TabFile [[''Resi'', ''Resi_Seq'', ''Resi_Potential''], [''ALA'', ''1'', ''1e+06'']])"
    using surface_files(2)[OF format_env_written(1) oa wa, of "''1abc.pdb''" "''out''" empty_world]
    by (simp add: tb out_path)
  have tb': "files (snd (get_surface_resi format_env ''1abc.pdb'' ''b.csv'' ''out'' empty_world))
     ''out/1abc.pdb_surface_data.txt'' =
     Some (TabFile [[''Resi'', ''Resi_Seq'', ''Resi_Potential''], [''ALA'', ''1'', ''1e+06'']])"
    using surface_files(2)[OF format_env_written(2) ob wb, of "''1abc.pdb''" "''out''" empty_world]
    by (simp add: tb out_path)
  from ca cb ne ta tb' show ?thesis by blast
qed

text \<open>
  C2, amended. For a well-formed input, whenever the output files are written, the
  output CSV has one row for each distinct key of the input, and the
  \<^verbatim>\<open>Resi_Potential\<close> in the row of a key is the floating-point sum of the \<^verbatim>\<open>Potential\<close>
  values of the input rows with that key, accumulated from \<open>0.0\<close> in input order.
\<close>

theorem potential_per_key:
  assumes "fst (write_outputs E pf cp od w) = None"
    and "open_csv E cp = Inr records"
    and "\<forall>row \<in> set (DictReader records). wellformed (to_float E) row"
  shows "\<exists>name.
           files (snd (get_surface_resi E pf cp od w)) (output_csv_file od pf) =
             Some (CsvFile ([Str ''Resi'', Str ''Resi_Seq'', Str ''Resi_Potential''] #
               map (\<lambda>k. [name k, k,
                          Float (foldl (+) 0 (map (Potential_of (to_float E))
                            (rows_of k (DictReader records))))])
                 (first_seen (map Resi_Seq_of (DictReader records)))))"
  using written_csv_by_key[OF assms]
  by (rule exI[of _ "\<lambda>k. Resi_of (last (rows_of k (DictReader records)))"])

lemma rounding_rows:
  "DictReader rounding_records =
     [dict_row [''Resi'', ''Resi_Seq'', ''Potential''] [''ALA'', ''1'', ''1e16''],
      dict_row [''Resi'', ''Resi_Seq'', ''Potential''] [''GLY'', ''2'', ''1.0''],
      dict_row [''Resi'', ''Resi_Seq'', ''Potential''] [''ALA'', ''1'', ''1.0''],
      dict_row [''Resi'', ''Resi_Seq'', ''Potential''] [''GLY'', ''2'', ''1.0'']]"
  by (simp add: rounding_records_def)

lemma rounding_fields:
  "map (\<lambda>row. (Resi_of row, Resi_Seq_of row, Potential_of float_of_string row))
     (DictReader rounding_records) =
     [(Str ''ALA'', Str ''1'', double_of_int 10000000000000000),
      (Str ''GLY'', Str ''2'', double_of_int 1),
      (Str ''ALA'', Str ''1'', double_of_int 1),
      (Str ''GLY'', Str ''2'', double_of_int 1)]"
  by (simp add: rounding_rows dict_row_def Resi_of_def Resi_Seq_of_def Potential_of_def
      parse_1e16 parse_1)

lemma rounding_wellformed:
  "\<forall>row \<in> set (DictReader rounding_records). wellformed float_of_string row"
  by (simp add: rounding_rows dict_row_def wellformed_def parse_1e16 parse_1)

lemma rounding_first_seen:
  "first_seen (map Resi_Seq_of (DictReader rounding_records :: (string \<rightharpoonup> pyfloat pyval) list)) =
     [Str ''1'', Str ''2'']"
  by (simp add: rounding_rows dict_row_def Resi_Seq_of_def)

lemma rounding_sums:
  "foldl (+) 0 (map (Potential_of float_of_string)
     (rows_of (Str ''1'') (DictReader rounding_records))) = double_of_int 10000000000000000"
  "foldl (+) 0 (map (Potential_of float_of_string)
     (rows_of (Str ''2'') (DictReader rounding_records))) = double_of_int 2"
  by (simp_all add: rows_of_def rounding_rows dict_row_def Resi_Seq_of_def Potential_of_def
      parse_1e16 parse_1 zero_double plus_pyfloat_def fadd_values)

lemma rounding_report:
  "surface_report float_of_string (DictReader rounding_records) =
     [(Str ''ALA'', Str ''1'', double_of_int 10000000000000000),
      (Str ''GLY'', Str ''2'', double_of_int 2)]"
  by (simp add: surface_report_def rows_of_def rounding_rows dict_row_def Resi_of_def
      Resi_Seq_of_def Potential_of_def parse_1e16 parse_1 zero_double plus_pyfloat_def
      fadd_values)

lemma rounding_written:
  "fst (write_outputs (ok_env rounding_records) ''1abc.pdb'' ''in.csv'' ''out'' empty_world) = None"
  by (rule write_outputs_ok_env(1)[OF rounding_wellformed])

text \<open>
  A run on the rounding input: the row of the key \<^verbatim>\<open>1\<close> holds \<open>1e16\<close>, the float sum of
  \<open>1e16\<close> and \<open>1.0\<close>, and the row of the key \<^verbatim>\<open>2\<close> holds \<open>2.0\<close>.
\<close>

theorem potential_per_key_witness:
  "fst (write_outputs (ok_env rounding_records) ''1abc.pdb'' ''in.csv'' ''out'' empty_world) = None \<and>
   open_csv (ok_env rounding_records) ''in.csv'' = Inr rounding_records \<and>
   list_all (wellformed float_of_string) (DictReader rounding_records) \<and>
   (\<exists>n1 n2.
      files (snd (get_surface_resi (ok_env rounding_records) ''1abc.pdb'' ''in.csv'' ''out''
        empty_world)) (output_csv_file ''out'' ''1abc.pdb'') =
        Some (CsvFile [[Str ''Resi'', Str ''Resi_Seq'', Str ''Resi_Potential''],
          [n1, Str ''1'', Float (double_of_int (10 ^ 16))],
          [n2, Str ''2'', Float (double_of_int 2)]]))"
proof -
  have opn: "open_csv (ok_env rounding_records) ''in.csv'' = Inr rounding_records"
    and tf: "to_float (ok_env rounding_records) = float_of_string"
    by (simp_all add: ok_env_def)
  have wf: "\<forall>row \<in> set (DictReader rounding_records).
      wellformed (to_float (ok_env rounding_records)) row"
    using rounding_wellformed by (simp add: tf)
  have la: "list_all (wellformed float_of_string) (DictReader rounding_records)"
    using rounding_wellformed by (simp add: list_all_iff)
  from potential_per_key[OF rounding_written opn wf] obtain name where
    "files (snd (get_surface_resi (ok_env rounding_records) ''1abc.pdb'' ''in.csv'' ''out''
        empty_world)) (output_csv_file ''out'' ''1abc.pdb'') =
      Some (CsvFile ([Str ''Resi'', Str ''Resi_Seq'', Str ''Resi_Potential''] #
        map (\<lambda>k. [name k, k,
                   Float (foldl (+) 0 (map (Potential_of (to_float (ok_env rounding_records)))
                     (rows_of k (DictReader rounding_records))))])
          (first_seen (map Resi_Seq_of (DictReader rounding_records)))))"
    by blast
  then have "files (snd (get_surface_resi (ok_env rounding_records) ''1abc.pdb'' ''in.csv'' ''out''
        empty_world)) (output_csv_file ''out'' ''1abc.pdb'') =
      Some (CsvFile [[Str ''Resi'', Str ''Resi_Seq'', Str ''Resi_Potential''],
        [name (Str ''1''), Str ''1'', Float (double_of_int (10 ^ 16))],
        [name (Str ''2''), Str ''2'', Float (double_of_int 2)]])"
    by (simp add: tf rounding_first_seen rounding_sums)
  with rounding_written opn la show ?thesis by blast
qed

text \<open>
  C2 as stated fails in binary64. The input potentials are \<open>1e16\<close>, \<open>1.0\<close>, \<open>1.0\<close>,
  \<open>1.0\<close>; the rows written hold \<open>1e16\<close> (for \<open>1e16 + 1.0\<close>, rounded) and \<open>2.0\<close>. Added
  up as floats the output gives \<open>1e16 + 2\<close> and the input gives \<open>1e16\<close>; added up
  exactly they give \<open>1e16 + 2\<close> and \<open>1e16 + 3\<close>.
\<close>

theorem potential_per_key_counterexample:
  "list_all (wellformed float_of_string) (DictReader rounding_records) \<and>
   fst (get_surface_resi (ok_env rounding_records) ''1abc.pdb'' ''in.csv'' ''out'' empty_world) =
     Inr (''out/1abc.pdb_surface_data.txt'', False) \<and>
   map (Potential_of float_of_string) (DictReader rounding_records) =
     [double_of_int (10 ^ 16), double_of_int 1, double_of_int 1, double_of_int 1] \<and>
   files (snd (get_surface_resi (ok_env rounding_records) ''1abc.pdb'' ''in.csv'' ''out''
       empty_world)) (output_csv_file ''out'' ''1abc.pdb'') =
     Some (CsvFile [[Str ''Resi'', Str ''Resi_Seq'', Str ''Resi_Potential''],
       [Str ''ALA'', Str ''1'', Float (double_of_int (10 ^ 16))],
       [Str ''GLY'', Str ''2'', Float (double_of_int 2)]]) \<and>
   foldl (+) 0 [double_of_int (10 ^ 16), double_of_int 2] = double_of_int (10 ^ 16 + 2) \<and>
   foldl (+) 0 [double_of_int (10 ^ 16), double_of_int 1, double_of_int 1, double_of_int 1] =
     double_of_int (10 ^ 16) \<and>
   double_of_int (10 ^ 16 + 2) \<noteq> double_of_int (10 ^ 16) \<and>
   (10 ^ 16 + 2 :: int) \<noteq> 10 ^ 16 + 1 + 1 + 1"
proof -
  have wf: "list_all (wellformed float_of_string) (DictReader rounding_records)"
    using rounding_wellformed by (simp add: list_all_iff)
  have run: "fst (get_surface_resi (ok_env rounding_records) ''1abc.pdb'' ''in.csv'' ''out''
      empty_world) = Inr (''out/1abc.pdb_surface_data.txt'', False)"
    by (simp only: run_ok_env[OF rounding_wellformed] out_path)
  have inp: "map (Potential_of float_of_string) (DictReader rounding_records) =
     [double_of_int (10 ^ 16), double_of_int 1, double_of_int 1, double_of_int 1]"
    using arg_cong[OF rounding_fields, of "map (\<lambda>(n, k, x). x)"] by (simp add: comp_def)
  have opn: "open_csv (ok_env rounding_records) ''in.csv'' = Inr rounding_records"
    and tf: "to_float (ok_env rounding_records) = float_of_string"
    by (simp_all add: ok_env_def)
  have wfe: "\<forall>row \<in> set (DictReader rounding_records).
      wellformed (to_float (ok_env rounding_records)) row"
    using rounding_wellformed by (simp add: tf)
  have out: "files (snd (get_surface_resi (ok_env rounding_records) ''1abc.pdb'' ''in.csv'' ''out''
       empty_world)) (output_csv_file ''out'' ''1abc.pdb'') =
     Some (CsvFile [[Str ''Resi'', Str ''Resi_Seq'', Str ''Resi_Potential''],
       [Str ''ALA'', Str ''1'', Float (double_of_int (10 ^ 16))],
       [Str ''GLY'', Str ''2'', Float (double_of_int 2)]])"
    using written_csv[OF rounding_written opn wfe] by (simp add: tf rounding_report)
  have s1: "foldl (+) 0 [double_of_int (10 ^ 16), double_of_int 2] = double_of_int (10 ^ 16 + 2)"
    by (simp add: zero_double plus_pyfloat_def fadd_values)
  have s2: "foldl (+) 0 [double_of_int (10 ^ 16), double_of_int 1, double_of_int 1, double_of_int 1] =
     double_of_int (10 ^ 16)"
    by (simp add: zero_double plus_pyfloat_def fadd_values)
  have ne: "double_of_int (10 ^ 16 + 2) \<noteq> double_of_int (10 ^ 16)"
    by (simp add: double_of_int_def)
  have ex: "(10 ^ 16 + 2 :: int) \<noteq> 10 ^ 16 + 1 + 1 + 1" by simp
  from wf run inp out s1 s2 ne ex show ?thesis by blast
qed

text \<open>
  With an addition that is associative and commutative (exact arithmetic), the
  potentials of the report add up to the potentials of the input. The binary64
  addition of the program is not associative, and the counterexample above shows
  that the totals differ there.
\<close>

lemma foldl_add_sum_list: "foldl (+) a xs = a + sum_list (xs :: 'a::monoid_add list)"
  by (induction xs arbitrary: a) (simp_all add: add.assoc)

lemma sum_list_split_key:
  "distinct ks \<Longrightarrow>
   sum_list (map g ks) =
     (if k \<in> set ks then g k else 0) + sum_list (map g (filter (\<lambda>y. y \<noteq> k) ks) :: 'a::comm_monoid_add list)"
  by (induction ks) (auto simp: add.left_commute)

lemma report_total_exact:
  fixes parse :: "string \<Rightarrow> 'f::comm_monoid_add option"
  shows "sum_list (map (\<lambda>(n, k, x). x) (surface_report parse rows)) =
         sum_list (map (Potential_of parse) rows)"
proof -
  define g where "g rows k = sum_list (map (Potential_of parse) (rows_of k rows))" for rows k
  have "sum_list (map (g rows) (first_seen (map Resi_Seq_of rows))) =
        sum_list (map (Potential_of parse) rows)"
  proof (induction rows)
    case Nil
    then show ?case by simp
  next
    case (Cons r rows)
    let ?k = "Resi_Seq_of r"
    let ?fs = "first_seen (map Resi_Seq_of rows)"
    have g1: "g (r # rows) ?k = Potential_of parse r + g rows ?k"
      by (simp add: g_def rows_of_def)
    have g2: "g (r # rows) k' = g rows k'" if "k' \<noteq> ?k" for k'
      using that by (auto simp: g_def rows_of_def)
    have z: "g rows ?k = 0" if "?k \<notin> set ?fs"
    proof -
      from that have "?k \<notin> Resi_Seq_of ` set rows" by (simp add: set_first_seen)
      then have "\<forall>x \<in> set rows. Resi_Seq_of x \<noteq> ?k" by (metis image_eqI)
      then have "rows_of ?k rows = []"
        by (simp add: rows_of_def filter_empty_conv)
      then show ?thesis by (simp add: g_def)
    qed
    have "sum_list (map (g (r # rows)) (first_seen (map Resi_Seq_of (r # rows)))) =
          g (r # rows) ?k + sum_list (map (g (r # rows)) (filter (\<lambda>y. y \<noteq> ?k) ?fs))"
      by simp
    also have "map (g (r # rows)) (filter (\<lambda>y. y \<noteq> ?k) ?fs) = map (g rows) (filter (\<lambda>y. y \<noteq> ?k) ?fs)"
      by (intro map_cong) (auto simp: g2)
    also have "g (r # rows) ?k + sum_list (map (g rows) (filter (\<lambda>y. y \<noteq> ?k) ?fs)) =
          Potential_of parse r + sum_list (map (g rows) ?fs)"
      using sum_list_split_key[OF distinct_first_seen, of "g rows" "map Resi_Seq_of rows" ?k] z
      by (auto simp: g1 add.assoc)
    finally show ?case using Cons.IH by simp
  qed
  moreover have "g rows = (\<lambda>k. sum_list (map (Potential_of parse) (rows_of k rows)))"
    by (rule ext) (simp add: g_def)
  ultimately show ?thesis
    by (simp add: surface_report_def comp_def foldl_add_sum_list)
qed

end
